theory Spec2Isabelle
  imports Complex_Main
begin

section \<open>Python strings used by Process3DFLAIR\<close>

text \<open>
  The pipeline class \<^verbatim>\<open>Process3DFLAIR\<close> (src/Code/Process3DFLAIR.py) builds every
  artifact path by string concatenation. The string operations it uses are modelled on
  \<open>string\<close>: \<^verbatim>\<open>str(int)\<close>, \<^verbatim>\<open>str.zfill\<close>, \<^verbatim>\<open>str.startswith\<close>,
  \<^verbatim>\<open>str.rsplit\<close>, the substring test \<^verbatim>\<open>in\<close> and \<^verbatim>\<open>os.path.join\<close>.
\<close>

definition digit_char :: "nat \<Rightarrow> char" where
  "digit_char d = char_of (48 + d)"

function digits :: "nat \<Rightarrow> string" where
  "digits n = (if n < 10 then [digit_char n] else digits (n div 10) @ [digit_char (n mod 10)])"
  by pat_completeness auto
termination
  by (relation "measure (\<lambda>n. n)") auto

declare digits.simps [simp del]

text \<open>\<^verbatim>\<open>str(i)\<close> for a Python int: a minus sign and the decimal digits.\<close>

definition py_str :: "int \<Rightarrow> string" where
  "py_str i = (if i < 0 then CHR ''-'' # digits (nat (- i)) else digits (nat i))"

text \<open>
  \<^verbatim>\<open>s.zfill(width)\<close>: pads with zeros on the left up to \<open>width\<close>; a leading sign
  stays in front of the padding.
\<close>

definition zfill :: "nat \<Rightarrow> string \<Rightarrow> string" where
  "zfill width s =
     (if width \<le> length s then s
      else (case s of
              c # rest \<Rightarrow>
                (if c = CHR ''+'' \<or> c = CHR ''-''
                 then c # replicate (width - length s) CHR ''0'' @ rest
                 else replicate (width - length s) CHR ''0'' @ s)
            | [] \<Rightarrow> replicate width CHR ''0''))"

definition startswith :: "string \<Rightarrow> string \<Rightarrow> bool" where
  "startswith s p = (take (length p) s = p)"

text \<open>\<^verbatim>\<open>p in s\<close> for strings: \<open>p\<close> occurs as a contiguous piece of \<open>s\<close>.\<close>

fun contains :: "string \<Rightarrow> string \<Rightarrow> bool" where
  "contains [] p = (p = [])"
| "contains (c # cs) p = (startswith (c # cs) p \<or> contains cs p)"

text \<open>
  \<^verbatim>\<open>s.rsplit(sep, 1)\<close> for a one-character separator: \<open>None\<close> stands for the
  one-element list \<^verbatim>\<open>[s]\<close> (no separator in \<open>s\<close>), \<open>Some (a, b)\<close> for \<^verbatim>\<open>[a, b]\<close>,
  split at the last separator.
\<close>

definition rsplit1 :: "char \<Rightarrow> string \<Rightarrow> (string \<times> string) option" where
  "rsplit1 sep s =
     (if sep \<in> set s
      then Some (rev (tl (dropWhile (\<lambda>c. c \<noteq> sep) (rev s))),
                 rev (takeWhile (\<lambda>c. c \<noteq> sep) (rev s)))
      else None)"

text \<open>
  \<^verbatim>\<open>os.path.join(a, b)\<close> on POSIX: an absolute \<open>b\<close> replaces \<open>a\<close>; otherwise the two
  are joined with exactly one separator unless \<open>a\<close> is empty or already ends with one.
\<close>

definition os_path_join :: "string \<Rightarrow> string \<Rightarrow> string" where
  "os_path_join a b =
     (if startswith b ''/'' then b
      else if a = [] \<or> last a = CHR ''/'' then a @ b
      else a @ ''/'' @ b)"

section \<open>The Process3DFLAIR object\<close>

text \<open>
  The fields set by \<^verbatim>\<open>__init__\<close>. Time points are Python ints; the registration
  method is whatever string the caller passed. The directory fields are the ones the
  constructor derives from the subject identifier.
\<close>

record process3dflair =
  subject_id :: string
  total_num_time_points :: int
  time_points_to_consider :: "int list"
  registration_method :: string
  subject_directory_root :: string
  registered_directory :: string
  subject_bias_directory :: string
  subject_bias_fields_directory :: string
  subject_normalised_directory :: string
  subject_nifti_directory :: string
  subject_brain_directory :: string

definition Process3DFLAIR :: "string \<Rightarrow> int \<Rightarrow> int list \<Rightarrow> string \<Rightarrow> process3dflair" where
  "Process3DFLAIR sid num_tp tps method =
     (let root = ''/home/ela/Documents/B-RAPIDD/'' @ sid @ ''/3D-FLAIR/'' in
      \<lparr> subject_id = sid,
        total_num_time_points = num_tp,
        time_points_to_consider = tps,
        registration_method = method,
        subject_directory_root = root,
        registered_directory = root @ ''registered_nifti/'',
        subject_bias_directory = root @ ''bias_nifti/'',
        subject_bias_fields_directory = root @ ''bias_nifti/'' @ ''fields/'',
        subject_normalised_directory = root @ ''normalised_nifti/'',
        subject_nifti_directory = root @ ''original_nifti/'',
        subject_brain_directory = root @ ''brain_nifti/'' \<rparr>)"

subsection \<open>Artifact paths\<close>

text \<open>
  Every path is \<^verbatim>\<open>directory + subject_id + '_{}_D1...'.format(tp)\<close>. The format call
  is modelled as concatenation (directory and subject identifier hold no braces).
  Two different time-point strings are in use: \<^verbatim>\<open>applyBETMask\<close> pads with
  \<^verbatim>\<open>str(tp).zfill(2)\<close>, while \<^verbatim>\<open>correctBiasField\<close>,
  \<^verbatim>\<open>intensityNormalisation\<close> and \<^verbatim>\<open>calcVariance\<close> write
  \<^verbatim>\<open>str(0)+str(tp)\<close>.
\<close>

definition tp_zfill :: "int \<Rightarrow> string" where
  "tp_zfill tp = zfill 2 (py_str tp)"

definition current_img_str :: "int \<Rightarrow> string" where
  "current_img_str tp = py_str 0 @ py_str tp"

definition nifti_file :: "process3dflair \<Rightarrow> string \<Rightarrow> string" where
  "nifti_file self tp = subject_nifti_directory self @ subject_id self @ ''_'' @ tp @ ''_D1.nii.gz''"

definition brain_file_mask :: "process3dflair \<Rightarrow> string \<Rightarrow> string" where
  "brain_file_mask self tp =
     subject_brain_directory self @ ''masks/'' @ subject_id self @ ''_'' @ tp @ ''_D1.nii''"

definition brain_file :: "process3dflair \<Rightarrow> string \<Rightarrow> string" where
  "brain_file self tp = subject_brain_directory self @ subject_id self @ ''_'' @ tp @ ''_D1.nii.gz''"

definition affine_file_path :: "process3dflair \<Rightarrow> string \<Rightarrow> string" where
  "affine_file_path self tp =
     registered_directory self @ ''/FLIRT_mat/'' @ subject_id self @ ''_'' @ tp @ ''_D1_flirt.mat''"

definition registered_whole_brain_file :: "process3dflair \<Rightarrow> string \<Rightarrow> string" where
  "registered_whole_brain_file self tp =
     registered_directory self @ subject_id self @ ''_'' @ tp @ ''_D1.nii.gz''"

definition bias_restore_file :: "process3dflair \<Rightarrow> string \<Rightarrow> string" where
  "bias_restore_file self tp =
     subject_bias_directory self @ subject_id self @ ''_'' @ tp @ ''_D1_restore.nii.gz''"

definition normalised_file :: "process3dflair \<Rightarrow> string \<Rightarrow> string" where
  "normalised_file self tp =
     subject_normalised_directory self @ subject_id self @ ''_'' @ tp @ ''_D1.nii.gz''"

text \<open>The list \<^verbatim>\<open>image_paths\<close> that \<^verbatim>\<open>calcVariance\<close> builds before loading.\<close>

definition calcVariance_image_paths :: "process3dflair \<Rightarrow> string list" where
  "calcVariance_image_paths self =
     map (\<lambda>i. normalised_file self (current_img_str (time_points_to_consider self ! i)))
       [0..<length (time_points_to_consider self)]"

section \<open>Files, volumes and external tools\<close>

text \<open>
  Every exception the modelled code can raise is a value. \<open>MissingPrerequisite\<close> is
  the error the registration adapter raises (section 4.3 of the specification);
  \<open>ExternalToolFailure\<close> is left to the external tools.
\<close>

datatype error =
    IndexError
  | FileNotFoundError
  | ImageFileError
  | MissingPrerequisite
  | ExternalToolFailure

text \<open>
  A volume is a three-dimensional numpy array: its shape and its elements. The loops of
  \<^verbatim>\<open>calcVariance\<close> index with three subscripts, so only three-dimensional arrays
  are modelled. Intensities are real numbers: numpy's float64 arithmetic is idealised.
\<close>

record ndarray =
  shape :: "nat \<times> nat \<times> nat"
  elems :: "nat \<times> nat \<times> nat \<Rightarrow> real"

definition in_bounds :: "nat \<times> nat \<times> nat \<Rightarrow> nat \<times> nat \<times> nat \<Rightarrow> bool" where
  "in_bounds s idx =
     (case s of (nx, ny, nz) \<Rightarrow> case idx of (i, j, k) \<Rightarrow> i < nx \<and> j < ny \<and> k < nz)"

text \<open>\<^verbatim>\<open>a[i,j,k]\<close> with non-negative subscripts: IndexError outside the shape.\<close>

definition getitem :: "ndarray \<Rightarrow> nat \<times> nat \<times> nat \<Rightarrow> error + real" where
  "getitem a idx = (if in_bounds (shape a) idx then Inr (elems a idx) else Inl IndexError)"

text \<open>Every voxel of a grid of shape \<open>s\<close> is also a voxel of a grid of shape \<open>t\<close>.\<close>

definition fits_in :: "nat \<times> nat \<times> nat \<Rightarrow> nat \<times> nat \<times> nat \<Rightarrow> bool" where
  "fits_in s t =
     (case s of (a, b, c) \<Rightarrow> case t of (x, y, z) \<Rightarrow>
        a = 0 \<or> b = 0 \<or> c = 0 \<or> (a \<le> x \<and> b \<le> y \<and> c \<le> z))"

text \<open>\<^verbatim>\<open>a[i,j,k] = v\<close>, used only inside the shape of \<open>a\<close>.\<close>

definition setitem :: "ndarray \<Rightarrow> nat \<times> nat \<times> nat \<Rightarrow> real \<Rightarrow> ndarray" where
  "setitem a idx v = a\<lparr>elems := (elems a)(idx := v)\<rparr>"

definition np_zeros :: "nat \<times> nat \<times> nat \<Rightarrow> ndarray" where
  "np_zeros s = \<lparr>shape = s, elems = (\<lambda>_. 0)\<rparr>"

text \<open>\<^verbatim>\<open>np.eye(4)\<close>, the matrix every saved image gets as its affine.\<close>

definition np_eye :: "nat \<Rightarrow> real list list" where
  "np_eye n = map (\<lambda>i. map (\<lambda>j. if i = j then 1 else 0) [0..<n]) [0..<n]"

text \<open>
  \<^verbatim>\<open>np.var(xs)\<close> with its default \<^verbatim>\<open>ddof=0\<close>: the mean of the squared deviations
  from the mean, over all elements of the array it is given.
\<close>

definition np_mean :: "real list \<Rightarrow> real" where
  "np_mean xs = sum_list xs / real (length xs)"

definition np_var :: "real list \<Rightarrow> real" where
  "np_var xs = sum_list (map (\<lambda>x. (x - np_mean xs)\<^sup>2) xs) / real (length xs)"

text \<open>A NIfTI image: the voxel data and the affine of its header.\<close>

record nifti =
  dataobj :: ndarray
  affine :: "real list list"

datatype file_content = NiftiFile nifti | OtherFile

type_synonym filesystem = "string \<Rightarrow> file_content option"

text \<open>
  The external tools the class runs. \<open>ApplyMask\<close>, \<open>FAST\<close> and \<open>Reorient2Std\<close> are
  the nipype interfaces with the inputs the code sets. The first three are the runs of the
  repository's registration module.
\<close>

datatype tool =
    RigidFLIRT string string string string string
  | AffineFLIRT string string string string string
  | FNIRT string string string string
  | ApplyMask string string string
  | FAST string int int int bool bool
  | Reorient2Std string string

text \<open>The methods of the class that the pipeline calls, with their arguments.\<close>

datatype method_call =
    ExtractBrain
  | ApplyBETMask int int
  | CorrectBiasField string
  | IntensityNormalisation bool
  | CalcVariance string

text \<open>
  The trace records, in order, each pipeline method entered, each tool run and each
  image handed to \<^verbatim>\<open>nib.save\<close>.
\<close>

datatype event = Enter method_call | Run tool | Save string nifti

record world =
  fs :: filesystem
  trace :: "event list"

text \<open>
  What the class cannot decide itself: what a tool run does to the file system and
  whether it fails, the order in which \<^verbatim>\<open>os.listdir\<close> lists a directory, and the
  histogram standardisation (\<^verbatim>\<open>NyulNormalize.fit\<close>, giving the map that is then
  applied to each image).
\<close>

record env =
  run_tool :: "tool \<Rightarrow> filesystem \<Rightarrow> error option \<times> filesystem"
  os_listdir :: "filesystem \<Rightarrow> string \<Rightarrow> string list"
  nyul_fit :: "ndarray list \<Rightarrow> error + (ndarray \<Rightarrow> ndarray)"

type_synonym action = "world \<Rightarrow> (error + unit) \<times> world"

definition skip :: action where
  "skip w = (Inr (), w)"

definition raise :: "error \<Rightarrow> action" where
  "raise e w = (Inl e, w)"

text \<open>Sequencing: an exception in the first action ends the run at the state reached.\<close>

definition seq :: "action \<Rightarrow> action \<Rightarrow> action" where
  "seq f g w = (case f w of (Inl e, w') \<Rightarrow> (Inl e, w') | (Inr _, w') \<Rightarrow> g w')"

fun for_each :: "'a list \<Rightarrow> ('a \<Rightarrow> action) \<Rightarrow> action" where
  "for_each [] f w = (Inr (), w)"
| "for_each (x # xs) f w =
     (case f x w of (Inl e, w') \<Rightarrow> (Inl e, w') | (Inr _, w') \<Rightarrow> for_each xs f w')"

definition enter :: "method_call \<Rightarrow> action" where
  "enter m w = (Inr (), w\<lparr>trace := trace w @ [Enter m]\<rparr>)"

text \<open>Running a tool: the run is recorded, then it succeeds or raises.\<close>

definition invoke :: "env \<Rightarrow> tool \<Rightarrow> action" where
  "invoke E t w =
     (case run_tool E t (fs w) of
        (None, fs') \<Rightarrow> (Inr (), w\<lparr>fs := fs', trace := trace w @ [Run t]\<rparr>)
      | (Some e, fs') \<Rightarrow> (Inl e, w\<lparr>fs := fs', trace := trace w @ [Run t]\<rparr>))"

text \<open>A list comprehension, or a fill loop, whose element computation may raise.\<close>

fun collect :: "('a \<Rightarrow> error + 'b) \<Rightarrow> 'a list \<Rightarrow> error + 'b list" where
  "collect f [] = Inr []"
| "collect f (x # xs) =
     (case f x of
        Inl e \<Rightarrow> Inl e
      | Inr y \<Rightarrow> (case collect f xs of Inl e \<Rightarrow> Inl e | Inr ys \<Rightarrow> Inr (y # ys)))"

text \<open>A loop over local data that may raise.\<close>

fun iterate :: "'a list \<Rightarrow> ('a \<Rightarrow> 's \<Rightarrow> error + 's) \<Rightarrow> 's \<Rightarrow> error + 's" where
  "iterate [] f s = Inr s"
| "iterate (x # xs) f s = (case f x s of Inl e \<Rightarrow> Inl e | Inr s' \<Rightarrow> iterate xs f s')"

text \<open>\<^verbatim>\<open>nib.load(path).get_fdata()\<close> and \<^verbatim>\<open>nib.save(img, path)\<close>.\<close>

definition nib_load :: "filesystem \<Rightarrow> string \<Rightarrow> error + ndarray" where
  "nib_load f p =
     (case f p of
        None \<Rightarrow> Inl FileNotFoundError
      | Some OtherFile \<Rightarrow> Inl ImageFileError
      | Some (NiftiFile img) \<Rightarrow> Inr (dataobj img))"

definition nib_save :: "nifti \<Rightarrow> string \<Rightarrow> action" where
  "nib_save img p w =
     (Inr (), w\<lparr>fs := (fs w)(p \<mapsto> NiftiFile img), trace := trace w @ [Save p img]\<rparr>)"

text \<open>\<^verbatim>\<open>shutil.move(src, dst)\<close> between file paths and \<^verbatim>\<open>os.remove(path)\<close>.\<close>

definition shutil_move :: "string \<Rightarrow> string \<Rightarrow> action" where
  "shutil_move src dst w =
     (case fs w src of
        None \<Rightarrow> (Inl FileNotFoundError, w)
      | Some c \<Rightarrow> (Inr (), w\<lparr>fs := ((fs w)(src := None))(dst \<mapsto> c)\<rparr>))"

definition os_remove :: "string \<Rightarrow> action" where
  "os_remove p w =
     (case fs w p of
        None \<Rightarrow> (Inl FileNotFoundError, w)
      | Some _ \<Rightarrow> (Inr (), w\<lparr>fs := (fs w)(p := None)\<rparr>))"

section \<open>The registration adapter\<close>

text \<open>
  \<^verbatim>\<open>rg.Registration(reference_path, target_path, out_path)\<close>: the object the class
  builds before each registration.
\<close>

record registration =
  reference_path :: string
  target_path :: string
  out_path :: string

text \<open>
  Modelled from the spec: the module \<^verbatim>\<open>Registration\<close> that Process3DFLAIR.py imports
  is not among the sources. Section 4.3 gives \<open>rigidRegister(reference, target)\<close>: one
  registration run with the given cost function and interpolation, whose output volume is
  written at the artifact path the pipeline expects.
\<close>

definition rigidFslFLIRT :: "env \<Rightarrow> registration \<Rightarrow> string \<Rightarrow> string \<Rightarrow> action" where
  "rigidFslFLIRT E r cost_function interpolation =
     invoke E (RigidFLIRT (reference_path r) (target_path r) (out_path r) cost_function interpolation)"

text \<open>
  Modelled from the spec: the module \<^verbatim>\<open>Registration\<close> is not among the sources.
  Section 4.3 gives \<open>affineRegister(reference, target)\<close>: one registration run producing
  the registered volume and the transform.
\<close>

definition affineFslFLIRT :: "env \<Rightarrow> registration \<Rightarrow> string \<Rightarrow> string \<Rightarrow> action" where
  "affineFslFLIRT E r cost_function interpolation =
     invoke E (AffineFLIRT (reference_path r) (target_path r) (out_path r) cost_function interpolation)"

text \<open>
  Modelled from the spec: the module \<^verbatim>\<open>Registration\<close> is not among the sources.
  Section 4.3: \<open>nonlinearRegister(reference, target, priorAffineTransform)\<close> fails with
  a MissingPrerequisite error if no prior affine transform exists for the same (subject,
  time point) pair, and section 8 adds that it then performs no filesystem writes;
  otherwise it is one non-linear registration run.
\<close>

definition nonlinearFslFNIRT :: "env \<Rightarrow> registration \<Rightarrow> string \<Rightarrow> action" where
  "nonlinearFslFNIRT E r affine_path w =
     (case fs w affine_path of
        None \<Rightarrow> raise MissingPrerequisite w
      | Some _ \<Rightarrow> invoke E (FNIRT (reference_path r) (target_path r) (out_path r) affine_path) w)"

section \<open>Mask propagation\<close>

text \<open>
  \<^verbatim>\<open>applyBETMask(extracted_timepoint, to_extract_timepoint)\<close>: three independent
  \<^verbatim>\<open>if\<close> statements compare the registration method with the three known names,
  then the mask is applied to the registered volume.
\<close>

definition applyBETMask :: "env \<Rightarrow> process3dflair \<Rightarrow> int \<Rightarrow> int \<Rightarrow> action" where
  "applyBETMask E self extracted_timepoint to_extract_timepoint =
     seq (enter (ApplyBETMask extracted_timepoint to_extract_timepoint))
     (let extracted_brain = brain_file self (tp_zfill extracted_timepoint);
          brain_to_extract = nifti_file self (tp_zfill to_extract_timepoint);
          mask = brain_file_mask self (tp_zfill extracted_timepoint);
          registered_whole_brain = registered_whole_brain_file self (tp_zfill to_extract_timepoint);
          reg = \<lparr>reference_path = extracted_brain, target_path = brain_to_extract,
                 out_path = registered_whole_brain\<rparr>
      in seq (if registration_method self = ''rigidfsl''
              then rigidFslFLIRT E reg ''mutualinfo'' ''trilinear'' else skip)
        (seq (if registration_method self = ''affinefsl''
              then affineFslFLIRT E reg ''mutualinfo'' ''trilinear'' else skip)
        (seq (if registration_method self = ''nonlinearfsl''
              then nonlinearFslFNIRT E reg (affine_file_path self (tp_zfill to_extract_timepoint))
              else skip)
             (invoke E (ApplyMask registered_whole_brain mask
                          (brain_file self (tp_zfill to_extract_timepoint)))))))"

text \<open>
  \<^verbatim>\<open>extractBrain\<close>: the template is \<^verbatim>\<open>time_points_to_consider[-1]\<close> (IndexError on
  an empty list); the loop runs over \<^verbatim>\<open>range(len(time_points_to_consider)-1)\<close>.
\<close>

definition extractBrain :: "env \<Rightarrow> process3dflair \<Rightarrow> action" where
  "extractBrain E self =
     seq (enter ExtractBrain)
       (case time_points_to_consider self of
          [] \<Rightarrow> raise IndexError
        | _ # _ \<Rightarrow>
            (let brain_template = last (time_points_to_consider self)
             in for_each [0..<length (time_points_to_consider self) - 1]
                  (\<lambda>i. applyBETMask E self brain_template (time_points_to_consider self ! i))))"

section \<open>Bias-field correction and reorganisation\<close>

text \<open>
  \<^verbatim>\<open>base_name = filename.rsplit(".", 2)[0]\<close>: the part before the second dot from
  the right, before the only dot, or the whole name.
\<close>

definition base_name :: "string \<Rightarrow> string" where
  "base_name filename =
     (case rsplit1 CHR ''.'' filename of
        None \<Rightarrow> filename
      | Some (a, _) \<Rightarrow> (case rsplit1 CHR ''.'' a of None \<Rightarrow> a | Some (b, _) \<Rightarrow> b))"

text \<open>
  \<^verbatim>\<open>suffix = base_name.rsplit("_", 1)[1]\<close>: IndexError when the base name has no
  underscore.
\<close>

definition suffix_of :: "string \<Rightarrow> error + string" where
  "suffix_of b = (case rsplit1 CHR ''_'' b of None \<Rightarrow> Inl IndexError | Some (_, s) \<Rightarrow> Inr s)"

text \<open>The body of the reorganisation loop for one listed file name.\<close>

definition reorganise_file :: "process3dflair \<Rightarrow> string \<Rightarrow> action" where
  "reorganise_file self filename =
     (let source_folder = subject_brain_directory self;
          target_folder = subject_bias_directory self;
          bias_subfolder = subject_bias_fields_directory self
      in if startswith filename (subject_id self)
         then (case suffix_of (base_name filename) of
                 Inl e \<Rightarrow> raise e
               | Inr suffix \<Rightarrow>
                   if suffix = ''restore''
                   then shutil_move (os_path_join source_folder filename)
                          (os_path_join target_folder filename)
                   else if suffix = ''bias''
                   then shutil_move (os_path_join source_folder filename)
                          (os_path_join bias_subfolder filename)
                   else if suffix = ''mixeltype''
                   then os_remove (os_path_join source_folder filename)
                   else if suffix = ''seg''
                   then os_remove (os_path_join source_folder filename)
                   else if contains (base_name filename) ''pve''
                   then os_remove (os_path_join source_folder filename)
                   else skip)
         else skip)"

text \<open>
  The branch the loop body takes for a file name, in the order of the \<^verbatim>\<open>if\<close> /
  \<^verbatim>\<open>elif\<close> chain, and what that branch does to the file system when the file is
  there.
\<close>

datatype file_action = MoveToBias | MoveToFields | Delete | Leave

definition planned_action :: "process3dflair \<Rightarrow> string \<Rightarrow> error + file_action" where
  "planned_action self filename =
     (if startswith filename (subject_id self)
      then (case suffix_of (base_name filename) of
              Inl e \<Rightarrow> Inl e
            | Inr suffix \<Rightarrow>
                if suffix = ''restore'' then Inr MoveToBias
                else if suffix = ''bias'' then Inr MoveToFields
                else if suffix = ''mixeltype'' then Inr Delete
                else if suffix = ''seg'' then Inr Delete
                else if contains (base_name filename) ''pve'' then Inr Delete
                else Inr Leave)
      else Inr Leave)"

definition step_fs :: "process3dflair \<Rightarrow> string \<Rightarrow> filesystem \<Rightarrow> filesystem" where
  "step_fs self filename f =
     (let src = os_path_join (subject_brain_directory self) filename
      in case planned_action self filename of
           Inr MoveToBias \<Rightarrow>
             (f(src := None))(os_path_join (subject_bias_directory self) filename := f src)
         | Inr MoveToFields \<Rightarrow>
             (f(src := None))(os_path_join (subject_bias_fields_directory self) filename := f src)
         | Inr Delete \<Rightarrow> f(src := None)
         | _ \<Rightarrow> f)"

text \<open>The paths one loop iteration can read or write for a file name.\<close>

definition touched3 :: "process3dflair \<Rightarrow> string \<Rightarrow> string set" where
  "touched3 self n =
     {os_path_join (subject_brain_directory self) n,
      os_path_join (subject_bias_directory self) n,
      os_path_join (subject_bias_fields_directory self) n}"

text \<open>
  The reorganisation: \<^verbatim>\<open>os.listdir(source_folder)\<close> is read once, then each listed
  name is handled in turn.
\<close>

definition reorganise :: "env \<Rightarrow> process3dflair \<Rightarrow> action" where
  "reorganise E self w =
     for_each (os_listdir E (fs w) (subject_brain_directory self)) (reorganise_file self) w"

definition correctBiasField :: "env \<Rightarrow> process3dflair \<Rightarrow> string \<Rightarrow> action" where
  "correctBiasField E self method =
     seq (enter (CorrectBiasField method))
       (if method = ''FSL''
        then seq (for_each [0..<length (time_points_to_consider self)]
                    (\<lambda>i. invoke E
                       (FAST (brain_file self (current_img_str (time_points_to_consider self ! i)))
                          5 1 5 True True)))
                 (reorganise E self)
        else skip)"

section \<open>Intensity normalisation\<close>

text \<open>
  The list comprehension \<^verbatim>\<open>[nib.load(p).get_fdata() for p in image_paths]\<close>, shared
  by \<^verbatim>\<open>intensityNormalisation\<close> and \<^verbatim>\<open>calcVariance\<close>.
\<close>

definition load_images :: "filesystem \<Rightarrow> string list \<Rightarrow> error + ndarray list" where
  "load_images f paths = collect (nib_load f) paths"

text \<open>
  \<^verbatim>\<open>intensityNormalisation(useBiasCorrected)\<close>: load, fit and apply the
  standardisation, save the standard histogram, save each normalised image with
  \<^verbatim>\<open>affine=np.eye(4)\<close>, then reorient each saved file in place. The two histogram
  plots touch neither files nor tools and are left out.
\<close>

definition intensityNormalisation_image_paths :: "process3dflair \<Rightarrow> bool \<Rightarrow> string list" where
  "intensityNormalisation_image_paths self useBiasCorrected =
     (let brain_file_format =
            (if useBiasCorrected then bias_restore_file self else brain_file self)
      in map (\<lambda>i. brain_file_format (current_img_str (time_points_to_consider self ! i)))
           [0..<length (time_points_to_consider self)])"

text \<open>\<^verbatim>\<open>nyul_norm.save_standard_histogram(path)\<close> writes the fitted histogram.\<close>

definition save_standard_histogram :: "string \<Rightarrow> action" where
  "save_standard_histogram p w = (Inr (), w\<lparr>fs := (fs w)(p \<mapsto> OtherFile)\<rparr>)"

text \<open>The two final loops: save every normalised image, then reorient every saved file.\<close>

definition save_normalised :: "env \<Rightarrow> process3dflair \<Rightarrow> ndarray list \<Rightarrow> action" where
  "save_normalised E self normalized =
     seq (for_each [0..<length (time_points_to_consider self)]
            (\<lambda>i. nib_save \<lparr>dataobj = normalized ! i, affine = np_eye 4\<rparr>
                   (normalised_file self (current_img_str (time_points_to_consider self ! i)))))
         (for_each [0..<length (time_points_to_consider self)]
            (\<lambda>i. invoke E
               (Reorient2Std
                  (normalised_file self (current_img_str (time_points_to_consider self ! i)))
                  (normalised_file self (current_img_str (time_points_to_consider self ! i))))))"

definition intensityNormalisation :: "env \<Rightarrow> process3dflair \<Rightarrow> bool \<Rightarrow> action" where
  "intensityNormalisation E self useBiasCorrected =
     seq (enter (IntensityNormalisation useBiasCorrected))
       (\<lambda>w.
          (case load_images (fs w) (intensityNormalisation_image_paths self useBiasCorrected) of
             Inl e \<Rightarrow> (Inl e, w)
           | Inr images \<Rightarrow>
               (case nyul_fit E images of
                  Inl e \<Rightarrow> (Inl e, w)
                | Inr nyul_norm \<Rightarrow>
                    seq (save_standard_histogram
                           (subject_normalised_directory self @ ''standard_histogram.npy''))
                        (save_normalised E self (map nyul_norm images))
                        w)))"

section \<open>Voxel-wise variance\<close>

text \<open>
  The innermost loop fills \<^verbatim>\<open>voxel_intensities[0,n] = images[n][i,j,k]\<close> for every
  \<^verbatim>\<open>n in range(len(time_points_to_consider))\<close>; every position of the row is
  written, so the row is the list of the values read.
\<close>

definition voxel_intensities :: "ndarray list \<Rightarrow> nat \<Rightarrow> nat \<times> nat \<times> nat \<Rightarrow> error + real list" where
  "voxel_intensities images n_tp idx = collect (\<lambda>n. getitem (images ! n) idx) [0..<n_tp]"

text \<open>The three nested loops over \<^verbatim>\<open>variances.shape\<close>.\<close>

definition variance_loops :: "ndarray list \<Rightarrow> nat \<Rightarrow> ndarray \<Rightarrow> error + ndarray" where
  "variance_loops images n_tp variances =
     (case shape variances of (nx, ny, nz) \<Rightarrow>
        iterate [0..<nx] (\<lambda>i.
          iterate [0..<ny] (\<lambda>j.
            iterate [0..<nz] (\<lambda>k v.
              (case voxel_intensities images n_tp (i, j, k) of
                 Inl e \<Rightarrow> Inl e
               | Inr xs \<Rightarrow> Inr (setitem v (i, j, k) (np_var xs))))))
          variances)"

text \<open>
  \<^verbatim>\<open>calcVariance(out_file)\<close>: load the normalised images, allocate
  \<^verbatim>\<open>np.zeros(images[0].shape)\<close> (IndexError when no image was loaded), run the
  loops and save the map with \<^verbatim>\<open>affine=np.eye(4)\<close>.
\<close>

definition calcVariance :: "process3dflair \<Rightarrow> string \<Rightarrow> action" where
  "calcVariance self out_file =
     seq (enter (CalcVariance out_file))
       (\<lambda>w.
          (case load_images (fs w) (calcVariance_image_paths self) of
             Inl e \<Rightarrow> (Inl e, w)
           | Inr images \<Rightarrow>
               (case images of
                  [] \<Rightarrow> (Inl IndexError, w)
                | first # _ \<Rightarrow>
                    (case variance_loops images (length (time_points_to_consider self))
                            (np_zeros (shape first)) of
                       Inl e \<Rightarrow> (Inl e, w)
                     | Inr variances \<Rightarrow>
                         nib_save \<lparr>dataobj = variances, affine = np_eye 4\<rparr> out_file w))))"

section \<open>The orchestrator\<close>

definition runVariancePipeline :: "env \<Rightarrow> process3dflair \<Rightarrow> string \<Rightarrow> action" where
  "runVariancePipeline E self out_file =
     seq (extractBrain E self)
    (seq (correctBiasField E self ''FSL'')
    (seq (intensityNormalisation E self True)
         (calcVariance self out_file)))"

section \<open>Reading the trace\<close>

fun tool_runs :: "event list \<Rightarrow> tool list" where
  "tool_runs [] = []"
| "tool_runs (Run t # tr) = t # tool_runs tr"
| "tool_runs (_ # tr) = tool_runs tr"

text \<open>
  The tool runs made by the class itself, leaving out the registration runs made inside
  the registration module.
\<close>

fun is_registration :: "tool \<Rightarrow> bool" where
  "is_registration (RigidFLIRT _ _ _ _ _) = True"
| "is_registration (AffineFLIRT _ _ _ _ _) = True"
| "is_registration (FNIRT _ _ _ _) = True"
| "is_registration _ = False"

definition direct_runs :: "event list \<Rightarrow> tool list" where
  "direct_runs tr = filter (\<lambda>t. \<not> is_registration t) (tool_runs tr)"

text \<open>The mask-propagation calls: (template, target) of each \<^verbatim>\<open>applyBETMask\<close> entered.\<close>

fun mask_calls :: "event list \<Rightarrow> (int \<times> int) list" where
  "mask_calls [] = []"
| "mask_calls (Enter (ApplyBETMask e t) # tr) = (e, t) # mask_calls tr"
| "mask_calls (_ # tr) = mask_calls tr"

text \<open>The stage methods entered, in order (\<^verbatim>\<open>applyBETMask\<close> is not a stage).\<close>

fun stage_calls :: "event list \<Rightarrow> method_call list" where
  "stage_calls [] = []"
| "stage_calls (Enter (ApplyBETMask e t) # tr) = stage_calls tr"
| "stage_calls (Enter m # tr) = m # stage_calls tr"
| "stage_calls (_ # tr) = stage_calls tr"

fun saved :: "event list \<Rightarrow> (string \<times> nifti) list" where
  "saved [] = []"
| "saved (Save p img # tr) = (p, img) # saved tr"
| "saved (_ # tr) = saved tr"

text \<open>The events a run adds to the trace it started from.\<close>

definition new_events :: "world \<Rightarrow> world \<Rightarrow> event list" where
  "new_events w w' = drop (length (trace w)) (trace w')"

text \<open>A run only ever appends to the trace.\<close>

definition extends :: "world \<Rightarrow> world \<Rightarrow> bool" where
  "extends w w' = (trace w' = trace w @ new_events w w')"

section \<open>A worked subject\<close>

text \<open>
  A subject with two time points whose artifacts of every stage are already on disk: the
  state a second run of the pipeline starts from. Volumes have one voxel; the scans carry
  a scanner affine that is not the identity. Every tool succeeds and leaves the files as
  they are, and the brain directory lists the two brain volumes and the mask folder.
\<close>

definition demo :: process3dflair where
  "demo = Process3DFLAIR ''S_1'' 2 [1, 2] ''affinefsl''"

definition const_volume :: "nat \<times> nat \<times> nat \<Rightarrow> real \<Rightarrow> ndarray" where
  "const_volume s c = \<lparr>shape = s, elems = (\<lambda>_. c)\<rparr>"

definition scanner_affine :: "real list list" where
  "scanner_affine = [[2, 0, 0, 0], [0, 2, 0, 0], [0, 0, 2, 0], [0, 0, 0, 1]]"

definition scan :: "nat \<times> nat \<times> nat \<Rightarrow> real \<Rightarrow> file_content" where
  "scan s c = NiftiFile \<lparr>dataobj = const_volume s c, affine = scanner_affine\<rparr>"

definition demo_out :: string where
  "demo_out = ''/home/ela/Documents/B-RAPIDD/S_1/3D-FLAIR/variance_maps/all.nii.gz''"

definition demo_fs :: filesystem where
  "demo_fs = map_of
     [(nifti_file demo ''01'', scan (1, 1, 1) 10), (nifti_file demo ''02'', scan (1, 1, 1) 20),
      (brain_file demo ''01'', scan (1, 1, 1) 10), (brain_file demo ''02'', scan (1, 1, 1) 20),
      (brain_file_mask demo ''02'', scan (1, 1, 1) 1),
      (registered_whole_brain_file demo ''01'', scan (1, 1, 1) 10),
      (bias_restore_file demo ''01'', scan (1, 1, 1) 10),
      (bias_restore_file demo ''02'', scan (1, 1, 1) 20),
      (normalised_file demo ''01'', scan (1, 1, 1) 10),
      (normalised_file demo ''02'', scan (1, 1, 1) 20),
      (demo_out, scan (1, 1, 1) 25),
      (affine_file_path demo ''01'', OtherFile),
      (subject_bias_fields_directory demo @ ''S_1_01_D1_bias.nii.gz'', scan (1, 1, 1) 1),
      (subject_bias_fields_directory demo @ ''S_1_02_D1_bias.nii.gz'', scan (1, 1, 1) 1),
      (subject_normalised_directory demo @ ''standard_histogram.npy'', OtherFile)]"

text \<open>
  Two states with normalised volumes of different shapes: in the first the second volume
  is the larger one, in the second the first volume is.
\<close>

definition mismatch_world :: world where
  "mismatch_world =
     \<lparr>fs = map_of [(normalised_file demo ''01'', scan (1, 1, 1) 10),
                     (normalised_file demo ''02'', scan (2, 1, 1) 20)],
      trace = []\<rparr>"

definition mismatch_world_rev :: world where
  "mismatch_world_rev =
     \<lparr>fs = map_of [(normalised_file demo ''01'', scan (2, 1, 1) 10),
                     (normalised_file demo ''02'', scan (1, 1, 1) 20)],
      trace = []\<rparr>"

text \<open>
  The brain directory right after bias correction of time point 1: the brain volume, the
  mask folder and one output file of each kind.
\<close>

definition fast_names :: "string list" where
  "fast_names =
     [''S_1_01_D1.nii.gz'', ''masks'', ''S_1_01_D1_restore.nii.gz'', ''S_1_01_D1_bias.nii.gz'',
      ''S_1_01_D1_mixeltype.nii.gz'', ''S_1_01_D1_seg.nii.gz'', ''S_1_01_D1_pve_0.nii.gz'']"

definition fast_world :: world where
  "fast_world =
     \<lparr>fs = map_of
        [(subject_brain_directory demo @ ''S_1_01_D1.nii.gz'', scan (1, 1, 1) 10),
         (subject_brain_directory demo @ ''S_1_01_D1_restore.nii.gz'', scan (1, 1, 1) 11),
         (subject_brain_directory demo @ ''S_1_01_D1_bias.nii.gz'', scan (1, 1, 1) 12),
         (subject_brain_directory demo @ ''S_1_01_D1_mixeltype.nii.gz'', scan (1, 1, 1) 13),
         (subject_brain_directory demo @ ''S_1_01_D1_seg.nii.gz'', scan (1, 1, 1) 14),
         (subject_brain_directory demo @ ''S_1_01_D1_pve_0.nii.gz'', scan (1, 1, 1) 15)],
      trace = []\<rparr>"

definition fast_env :: env where
  "fast_env = \<lparr>run_tool = (\<lambda>t f. (None, f)),
               os_listdir = (\<lambda>f d. fast_names),
               nyul_fit = (\<lambda>images. Inr (\<lambda>a. a))\<rparr>"

definition demo_env :: env where
  "demo_env = \<lparr>run_tool = (\<lambda>t f. (None, f)),
               os_listdir = (\<lambda>f d. [''S_1_01_D1.nii.gz'', ''S_1_02_D1.nii.gz'', ''masks'']),
               nyul_fit = (\<lambda>images. Inr (\<lambda>a. a))\<rparr>"

definition demo_world :: world where
  "demo_world = \<lparr>fs = demo_fs, trace = []\<rparr>"

section \<open>Properties\<close>

lemma digits_lt10: "n < 10 \<Longrightarrow> digits n = [digit_char n]"
  by (simp add: digits.simps)

lemma digits_ge10: "10 \<le> n \<Longrightarrow> digits n = digits (n div 10) @ [digit_char (n mod 10)]"
  by (subst digits.simps) simp

lemma length_digits_2: "10 \<le> n \<Longrightarrow> n < 100 \<Longrightarrow> length (digits n) = 2"
  by (simp add: digits_ge10 digits_lt10)

subsection \<open>Traces\<close>

lemma tool_runs_append: "tool_runs (xs @ ys) = tool_runs xs @ tool_runs ys"
  by (induction xs rule: tool_runs.induct) simp_all

lemma mask_calls_append: "mask_calls (xs @ ys) = mask_calls xs @ mask_calls ys"
  by (induction xs rule: mask_calls.induct) simp_all

lemma stage_calls_append: "stage_calls (xs @ ys) = stage_calls xs @ stage_calls ys"
  by (induction xs rule: stage_calls.induct) simp_all

lemma saved_append: "saved (xs @ ys) = saved xs @ saved ys"
  by (induction xs rule: saved.induct) simp_all

lemma new_events_append: "trace w' = trace w @ xs \<Longrightarrow> new_events w w' = xs"
  by (simp add: new_events_def)

subsection \<open>Time-point strings\<close>

text \<open>
  C6. The specification asks that the time-point component of every resolved path be
  exactly two digits for every time point from 1 to 99. \<^verbatim>\<open>applyBETMask\<close> pads with
  \<^verbatim>\<open>zfill(2)\<close>, but \<^verbatim>\<open>correctBiasField\<close>, \<^verbatim>\<open>intensityNormalisation\<close> and
  \<^verbatim>\<open>calcVariance\<close> write \<^verbatim>\<open>str(0)+str(tp)\<close>: at time point 10 the component is
  the three characters 010, and the path \<^verbatim>\<open>calcVariance\<close> loads from is not the one
  the two-digit convention gives.
\<close>

theorem time_point_10_three_characters:
  "current_img_str 10 = ''010''
   \<and> tp_zfill 10 = ''10''
   \<and> calcVariance_image_paths (Process3DFLAIR ''S_1'' 10 [10] ''affinefsl'')
       = [''/home/ela/Documents/B-RAPIDD/S_1/3D-FLAIR/normalised_nifti/S_1_010_D1.nii.gz'']
   \<and> brain_file (Process3DFLAIR ''S_1'' 10 [10] ''affinefsl'') (current_img_str 10)
       \<noteq> brain_file (Process3DFLAIR ''S_1'' 10 [10] ''affinefsl'') (tp_zfill 10)"
  by code_simp

subsection \<open>Mask application\<close>

lemma seq_skip [simp]: "seq skip g = g"
  by (rule ext) (simp add: seq_def skip_def)

lemma seq_enter: "seq (enter m) g w = g (w\<lparr>trace := trace w @ [Enter m]\<rparr>)"
  by (simp add: seq_def enter_def)

lemma invoke_fst: "fst (invoke E t w) = (case fst (run_tool E t (fs w)) of None \<Rightarrow> Inr () | Some e \<Rightarrow> Inl e)"
  by (simp add: invoke_def split: prod.splits option.splits)

lemma invoke_trace: "trace (snd (invoke E t w)) = trace w @ [Run t]"
  by (simp add: invoke_def split: prod.splits option.splits)

lemma invoke_fs: "fs (snd (invoke E t w)) = snd (run_tool E t (fs w))"
  by (simp add: invoke_def split: prod.splits option.splits)

text \<open>
  C9. When the registration method is none of \<^verbatim>\<open>'rigidfsl'\<close>, \<^verbatim>\<open>'affinefsl'\<close>,
  \<^verbatim>\<open>'nonlinearfsl'\<close>, \<^verbatim>\<open>applyBETMask\<close> takes no registration branch and raises
  nothing of its own: the whole call is the one \<^verbatim>\<open>ApplyMask\<close> run on the path where
  the registered volume was expected, and that run is the only tool run of the call.
\<close>

theorem applyBETMask_unknown_method:
  assumes "registration_method self \<notin> {''rigidfsl'', ''affinefsl'', ''nonlinearfsl''}"
  shows "applyBETMask E self e t w =
           invoke E (ApplyMask (registered_whole_brain_file self (tp_zfill t))
                       (brain_file_mask self (tp_zfill e)) (brain_file self (tp_zfill t)))
             (w\<lparr>trace := trace w @ [Enter (ApplyBETMask e t)]\<rparr>)
         \<and> tool_runs (new_events w (snd (applyBETMask E self e t w))) =
             [ApplyMask (registered_whole_brain_file self (tp_zfill t))
                (brain_file_mask self (tp_zfill e)) (brain_file self (tp_zfill t))]"
proof -
  let ?m = "ApplyMask (registered_whole_brain_file self (tp_zfill t))
              (brain_file_mask self (tp_zfill e)) (brain_file self (tp_zfill t))"
  have eq: "applyBETMask E self e t w =
              invoke E ?m (w\<lparr>trace := trace w @ [Enter (ApplyBETMask e t)]\<rparr>)"
    using assms by (simp add: applyBETMask_def seq_enter Let_def)
  have "trace (snd (applyBETMask E self e t w)) = trace w @ [Enter (ApplyBETMask e t), Run ?m]"
    by (simp add: eq invoke_trace)
  then have "new_events w (snd (applyBETMask E self e t w)) = [Enter (ApplyBETMask e t), Run ?m]"
    by (rule new_events_append)
  then show ?thesis using eq by simp
qed

theorem applyBETMask_unknown_method_witness:
  "registration_method (Process3DFLAIR ''S_1'' 2 [1, 2] ''bsplinefsl'')
     \<notin> {''rigidfsl'', ''affinefsl'', ''nonlinearfsl''}
   \<and> tool_runs (new_events demo_world
         (snd (applyBETMask demo_env (Process3DFLAIR ''S_1'' 2 [1, 2] ''bsplinefsl'') 2 1 demo_world))) =
       [ApplyMask ''/home/ela/Documents/B-RAPIDD/S_1/3D-FLAIR/registered_nifti/S_1_01_D1.nii.gz''
          ''/home/ela/Documents/B-RAPIDD/S_1/3D-FLAIR/brain_nifti/masks/S_1_02_D1.nii''
          ''/home/ela/Documents/B-RAPIDD/S_1/3D-FLAIR/brain_nifti/S_1_01_D1.nii.gz'']"
proof -
  let ?self = "Process3DFLAIR ''S_1'' 2 [1, 2] ''bsplinefsl''"
  have h: "registration_method ?self \<notin> {''rigidfsl'', ''affinefsl'', ''nonlinearfsl''}"
    by (simp add: Process3DFLAIR_def)
  have p: "registered_whole_brain_file ?self (tp_zfill 1)
             = ''/home/ela/Documents/B-RAPIDD/S_1/3D-FLAIR/registered_nifti/S_1_01_D1.nii.gz''"
    "brain_file_mask ?self (tp_zfill 2)
             = ''/home/ela/Documents/B-RAPIDD/S_1/3D-FLAIR/brain_nifti/masks/S_1_02_D1.nii''"
    "brain_file ?self (tp_zfill 1)
             = ''/home/ela/Documents/B-RAPIDD/S_1/3D-FLAIR/brain_nifti/S_1_01_D1.nii.gz''"
    by code_simp+
  show ?thesis
    using h applyBETMask_unknown_method [OF h, of demo_env 2 1 demo_world, THEN conjunct2]
    by (simp only: p simp_thms)
qed

text \<open>
  C4. With the non-linear method configured and no affine transform file for the time
  point to extract, \<^verbatim>\<open>applyBETMask\<close> ends with MissingPrerequisite raised by the
  registration adapter: the file system is as it was, no tool has run and no image has been
  saved (the mask is not applied).
\<close>

theorem nonlinear_without_affine:
  assumes "registration_method self = ''nonlinearfsl''"
    and "fs w (affine_file_path self (tp_zfill t)) = None"
  shows "fst (applyBETMask E self e t w) = Inl MissingPrerequisite
         \<and> fs (snd (applyBETMask E self e t w)) = fs w
         \<and> tool_runs (new_events w (snd (applyBETMask E self e t w))) = []
         \<and> saved (new_events w (snd (applyBETMask E self e t w))) = []"
proof -
  have eq: "applyBETMask E self e t w =
              (Inl MissingPrerequisite, w\<lparr>trace := trace w @ [Enter (ApplyBETMask e t)]\<rparr>)"
    using assms
    by (simp add: applyBETMask_def Let_def nonlinearFslFNIRT_def raise_def seq_def enter_def
        skip_def)
  then have "trace (snd (applyBETMask E self e t w)) = trace w @ [Enter (ApplyBETMask e t)]"
    by simp
  then have "new_events w (snd (applyBETMask E self e t w)) = [Enter (ApplyBETMask e t)]"
    by (rule new_events_append)
  then show ?thesis using eq by simp
qed

theorem nonlinear_without_affine_witness:
  "registration_method (Process3DFLAIR ''S_1'' 2 [1, 2] ''nonlinearfsl'') = ''nonlinearfsl''
   \<and> fs fast_world (affine_file_path (Process3DFLAIR ''S_1'' 2 [1, 2] ''nonlinearfsl'') (tp_zfill 1)) = None
   \<and> fst (applyBETMask demo_env (Process3DFLAIR ''S_1'' 2 [1, 2] ''nonlinearfsl'') 2 1 fast_world)
       = Inl MissingPrerequisite
   \<and> fs (snd (applyBETMask demo_env (Process3DFLAIR ''S_1'' 2 [1, 2] ''nonlinearfsl'') 2 1 fast_world))
       = fs fast_world"
proof -
  let ?self = "Process3DFLAIR ''S_1'' 2 [1, 2] ''nonlinearfsl''"
  have h1: "registration_method ?self = ''nonlinearfsl''"
    by (simp add: Process3DFLAIR_def)
  have h2: "fs fast_world (affine_file_path ?self (tp_zfill 1)) = None"
    by code_simp
  show ?thesis
    using h1 h2 nonlinear_without_affine [OF h1 h2, of demo_env 2] by simp
qed

subsection \<open>The trace only grows\<close>

lemma extendsI: "trace w' = trace w @ xs \<Longrightarrow> extends w w'"
  by (simp add: extends_def new_events_def)

lemma extends_refl: "extends w w"
  by (simp add: extends_def new_events_def)

lemma extends_trans: "extends w w1 \<Longrightarrow> extends w1 w2 \<Longrightarrow> extends w w2"
  by (metis append.assoc extendsI extends_def)

lemma new_events_trans:
  "extends w w1 \<Longrightarrow> extends w1 w2 \<Longrightarrow> new_events w w2 = new_events w w1 @ new_events w1 w2"
  by (metis append.assoc extends_def new_events_append)

lemma new_events_self: "new_events w w = []"
  by (simp add: new_events_def)

lemma extends_seq:
  assumes "\<And>w. extends w (snd (f w))" and "\<And>w. extends w (snd (g w))"
  shows "extends w (snd (seq f g w))"
proof (cases "f w")
  case (Pair r w1)
  then have e1: "extends w w1" using assms(1) [of w] by simp
  show ?thesis
  proof (cases r)
    case (Inl e)
    with Pair e1 show ?thesis by (simp add: seq_def)
  next
    case (Inr u)
    with Pair have "seq f g w = g w1" by (simp add: seq_def)
    with e1 assms(2) [of w1] show ?thesis by (auto intro: extends_trans)
  qed
qed

lemma extends_for_each:
  assumes "\<And>x w. extends w (snd (f x w))"
  shows "extends w (snd (for_each xs f w))"
proof (induction xs arbitrary: w)
  case Nil
  show ?case by (simp add: extends_refl)
next
  case (Cons x xs)
  show ?case
  proof (cases "f x w")
    case (Pair r w1)
    then have e1: "extends w w1" using assms [of w x] by simp
    show ?thesis
    proof (cases r)
      case (Inl e)
      with Pair e1 show ?thesis by simp
    next
      case (Inr u)
      with Pair have "for_each (x # xs) f w = for_each xs f w1" by simp
      with e1 Cons.IH [of w1] show ?thesis by (auto intro: extends_trans)
    qed
  qed
qed

lemma extends_skip: "extends w (snd (skip w))"
  by (simp add: skip_def extends_refl)

lemma extends_raise: "extends w (snd (raise e w))"
  by (simp add: raise_def extends_refl)

lemma extends_enter: "extends w (snd (enter m w))"
  by (rule extendsI [where xs = "[Enter m]"]) (simp add: enter_def)

lemma extends_invoke: "extends w (snd (invoke E t w))"
  by (rule extendsI [where xs = "[Run t]"]) (simp add: invoke_trace)

lemma extends_nib_save: "extends w (snd (nib_save img p w))"
  by (rule extendsI [where xs = "[Save p img]"]) (simp add: nib_save_def)

lemma extends_nonlinear: "extends w (snd (nonlinearFslFNIRT E r p w))"
  by (simp add: nonlinearFslFNIRT_def extends_raise extends_invoke split: option.splits)

lemma extends_applyBETMask: "extends w (snd (applyBETMask E self e t w))"
  unfolding applyBETMask_def Let_def rigidFslFLIRT_def affineFslFLIRT_def
  by (intro extends_seq extends_enter extends_invoke) 
     (simp_all add: extends_skip extends_invoke extends_nonlinear)

lemma extends_extractBrain: "extends w (snd (extractBrain E self w))"
  unfolding extractBrain_def Let_def
  by (intro extends_seq extends_enter)
     (simp add: extends_raise extends_for_each extends_applyBETMask split: list.splits)


lemma extends_same_trace: "trace w' = trace w \<Longrightarrow> extends w w'"
  by (rule extendsI [where xs = "[]"]) simp

lemma extends_shutil_move: "extends w (snd (shutil_move a b w))"
  by (simp add: shutil_move_def extends_same_trace split: option.splits)

lemma extends_os_remove: "extends w (snd (os_remove p w))"
  by (simp add: os_remove_def extends_same_trace split: option.splits)

lemma extends_reorganise_file: "extends w (snd (reorganise_file self n w))"
  by (simp add: reorganise_file_def Let_def extends_skip extends_raise extends_shutil_move
      extends_os_remove split: sum.splits)

lemma extends_reorganise: "extends w (snd (reorganise E self w))"
  by (simp add: reorganise_def extends_for_each extends_reorganise_file)

lemma extends_correctBiasField: "extends w (snd (correctBiasField E self m w))"
  unfolding correctBiasField_def
  by (intro extends_seq extends_enter)
     (auto intro!: extends_seq extends_for_each extends_invoke extends_reorganise extends_skip)

lemma extends_save_histogram: "extends w (snd (save_standard_histogram p w))"
  by (simp add: save_standard_histogram_def extends_same_trace)

lemma extends_save_normalised: "extends w (snd (save_normalised E self normalized w))"
  unfolding save_normalised_def
  by (intro extends_seq extends_for_each extends_nib_save extends_invoke)

lemma extends_intensityNormalisation: "extends w (snd (intensityNormalisation E self b w))"
  unfolding intensityNormalisation_def
proof (intro extends_seq extends_enter)
  fix w
  show "extends w (snd (case load_images (fs w) (intensityNormalisation_image_paths self b) of
          Inl e \<Rightarrow> (Inl e, w)
        | Inr images \<Rightarrow>
            (case nyul_fit E images of
               Inl e \<Rightarrow> (Inl e, w)
             | Inr nyul_norm \<Rightarrow>
                 seq (save_standard_histogram
                        (subject_normalised_directory self @ ''standard_histogram.npy''))
                     (save_normalised E self (map nyul_norm images))
                     w)))"
    by (simp add: extends_refl extends_seq extends_save_histogram extends_save_normalised
        split: sum.splits)
qed

lemma extends_calcVariance: "extends w (snd (calcVariance self out w))"
  unfolding calcVariance_def
proof (intro extends_seq extends_enter)
  fix w
  show "extends w (snd (case load_images (fs w) (calcVariance_image_paths self) of
          Inl e \<Rightarrow> (Inl e, w)
        | Inr images \<Rightarrow>
            (case images of
               [] \<Rightarrow> (Inl IndexError, w)
             | first # _ \<Rightarrow>
                 (case variance_loops images (length (time_points_to_consider self))
                         (np_zeros (shape first)) of
                    Inl e \<Rightarrow> (Inl e, w)
                  | Inr variances \<Rightarrow>
                      nib_save \<lparr>dataobj = variances, affine = np_eye 4\<rparr> out w))))"
    by (simp add: extends_refl extends_nib_save split: sum.splits list.splits)
qed

lemma extends_runVariancePipeline: "extends w (snd (runVariancePipeline E self out w))"
  unfolding runVariancePipeline_def
  by (intro extends_seq extends_extractBrain extends_correctBiasField
      extends_intensityNormalisation extends_calcVariance)

subsection \<open>Mask propagation calls\<close>

lemma map_nth_butlast: "map (\<lambda>i. f (xs ! i)) [0..<length xs - 1] = map f (butlast xs)"
  by (rule nth_equalityI) (simp_all add: nth_butlast)

lemma seq_proj:
  assumes "\<And>w. P (trace (snd (f w))) = P (trace w) @ xs"
    and "\<And>w. P (trace (snd (g w))) = P (trace w)"
  shows "P (trace (snd (seq f g w))) = P (trace w) @ xs"
proof -
  obtain r w1 where f: "f w = (r, w1)" by (cases "f w")
  have w1: "P (trace w1) = P (trace w) @ xs"
    using assms(1) [of w] f by simp
  show ?thesis
  proof (cases r)
    case (Inl e)
    with f w1 show ?thesis by (simp add: seq_def)
  next
    case (Inr u)
    with f w1 assms(2) [of w1] show ?thesis by (simp add: seq_def)
  qed
qed

lemma seq_proj_same:
  assumes "\<And>w. P (trace (snd (f w))) = P (trace w)"
    and "\<And>w. P (trace (snd (g w))) = P (trace w)"
  shows "P (trace (snd (seq f g w))) = P (trace w)"
proof -
  obtain r w1 where f: "f w = (r, w1)" by (cases "f w")
  have w1: "P (trace w1) = P (trace w)"
    using assms(1) [of w] f by simp
  show ?thesis
  proof (cases r)
    case (Inl e)
    with f w1 show ?thesis by (simp add: seq_def)
  next
    case (Inr u)
    with f w1 assms(2) [of w1] show ?thesis by (simp add: seq_def)
  qed
qed

lemma for_each_proj_same:
  assumes "\<And>x w. P (trace (snd (f x w))) = P (trace w)"
  shows "P (trace (snd (for_each xs f w))) = P (trace w)"
proof (induction xs arbitrary: w)
  case Nil
  show ?case by simp
next
  case (Cons x xs)
  obtain r w1 where f: "f x w = (r, w1)" by (cases "f x w")
  have w1: "P (trace w1) = P (trace w)"
    using assms [of x w] f by simp
  show ?case
  proof (cases r)
    case (Inl e)
    with f w1 show ?thesis by simp
  next
    case (Inr u)
    with f w1 Cons.IH [of w1] show ?thesis by simp
  qed
qed

lemma mask_calls_invoke: "mask_calls (trace (snd (invoke E t w))) = mask_calls (trace w)"
  by (simp add: invoke_trace mask_calls_append)

lemma mask_calls_nonlinear:
  "mask_calls (trace (snd (nonlinearFslFNIRT E r p w))) = mask_calls (trace w)"
  by (simp add: nonlinearFslFNIRT_def raise_def mask_calls_invoke split: option.splits)

lemma mask_calls_applyBETMask:
  "mask_calls (trace (snd (applyBETMask E self e t w))) = mask_calls (trace w) @ [(e, t)]"
  unfolding applyBETMask_def Let_def
proof (rule seq_proj)
  show "mask_calls (trace (snd (enter (ApplyBETMask e t) w))) = mask_calls (trace w) @ [(e, t)]"
    for w by (simp add: enter_def mask_calls_append)
next
  fix w
  show "mask_calls (trace (snd (seq
          (if registration_method self = ''rigidfsl''
           then rigidFslFLIRT E \<lparr>reference_path = brain_file self (tp_zfill e),
                  target_path = nifti_file self (tp_zfill t),
                  out_path = registered_whole_brain_file self (tp_zfill t)\<rparr>
                  ''mutualinfo'' ''trilinear''
           else skip)
          (seq (if registration_method self = ''affinefsl''
                then affineFslFLIRT E \<lparr>reference_path = brain_file self (tp_zfill e),
                       target_path = nifti_file self (tp_zfill t),
                       out_path = registered_whole_brain_file self (tp_zfill t)\<rparr>
                       ''mutualinfo'' ''trilinear''
                else skip)
          (seq (if registration_method self = ''nonlinearfsl''
                then nonlinearFslFNIRT E \<lparr>reference_path = brain_file self (tp_zfill e),
                       target_path = nifti_file self (tp_zfill t),
                       out_path = registered_whole_brain_file self (tp_zfill t)\<rparr>
                       (affine_file_path self (tp_zfill t))
                else skip)
               (invoke E (ApplyMask (registered_whole_brain_file self (tp_zfill t))
                            (brain_file_mask self (tp_zfill e))
                            (brain_file self (tp_zfill t)))))) w)))
        = mask_calls (trace w)"
    by (intro seq_proj_same)
       (simp_all add: skip_def rigidFslFLIRT_def affineFslFLIRT_def mask_calls_invoke
          mask_calls_nonlinear)
qed

lemma mask_calls_for_each:
  assumes "\<And>x w. mask_calls (trace (snd (f x w))) = mask_calls (trace w) @ [g x]"
    and "for_each xs f w = (Inr (), w')"
  shows "mask_calls (trace w') = mask_calls (trace w) @ map g xs"
  using assms(2)
proof (induction xs arbitrary: w)
  case Nil
  then show ?case by simp
next
  case (Cons x xs)
  obtain r w1 where f: "f x w = (r, w1)" by (cases "f x w")
  with Cons.prems obtain u where r: "r = Inr u" and rest: "for_each xs f w1 = (Inr (), w')"
    by (cases r) auto
  have "mask_calls (trace w1) = mask_calls (trace w) @ [g x]"
    using assms(1) [of x w] f by simp
  with Cons.IH [OF rest] show ?case by simp
qed

lemma mask_calls_extractBrain:
  assumes "time_points_to_consider self \<noteq> []"
    and "extractBrain E self w = (Inr (), w')"
  shows "mask_calls (new_events w w') =
           map (\<lambda>t. (last (time_points_to_consider self), t)) (butlast (time_points_to_consider self))"
proof -
  let ?tps = "time_points_to_consider self"
  let ?w0 = "w\<lparr>trace := trace w @ [Enter ExtractBrain]\<rparr>"
  from assms have run: "for_each [0..<length ?tps - 1]
                     (\<lambda>i. applyBETMask E self (last ?tps) (?tps ! i)) ?w0 = (Inr (), w')"
    by (simp add: extractBrain_def seq_def enter_def Let_def split: list.splits)
  have "mask_calls (trace w') =
          mask_calls (trace ?w0) @ map (\<lambda>i. (last ?tps, ?tps ! i)) [0..<length ?tps - 1]"
    by (rule mask_calls_for_each [OF _ run]) (rule mask_calls_applyBETMask)
  then have abs: "mask_calls (trace w') =
          mask_calls (trace w) @ map (\<lambda>t. (last ?tps, t)) (butlast ?tps)"
    using map_nth_butlast [of "\<lambda>t. (last ?tps, t)" ?tps] by (simp add: mask_calls_append)
  have "extends w w'"
    using extends_extractBrain [of w E self] assms(2) by simp
  then have "trace w' = trace w @ new_events w w'"
    by (simp add: extends_def)
  then have "mask_calls (trace w') = mask_calls (trace w) @ mask_calls (new_events w w')"
    by (metis mask_calls_append)
  with abs show ?thesis by simp
qed

lemma count_list_map_Pair: "count_list (map (Pair a) xs) (a, t) = count_list xs t"
  by (induction xs) auto

lemma count_list_distinct: "distinct xs \<Longrightarrow> count_list xs t = (if t \<in> set xs then 1 else 0)"
  by (induction xs) auto

lemma in_set_butlast_distinct:
  "distinct xs \<Longrightarrow> xs \<noteq> [] \<Longrightarrow> t \<in> set (butlast xs) \<longleftrightarrow> t \<in> set xs \<and> t \<noteq> last xs"
  by (induction xs) auto

text \<open>
  C5. For a non-empty list of time points, a run of \<^verbatim>\<open>extractBrain\<close> that returns
  calls \<^verbatim>\<open>applyBETMask\<close> with the last element as template, once for each element
  before the last, in order, and for nothing else. When the configured time points are
  pairwise different, each time point other than the template is therefore the target of
  exactly one call and the template of none. For the list 1 to 5 the calls are the four
  with targets 1 to 4.
\<close>

theorem extractBrain_propagates_to_all_but_template:
  assumes "time_points_to_consider self \<noteq> []"
    and "extractBrain E self w = (Inr (), w')"
  shows "mask_calls (new_events w w') =
           map (\<lambda>t. (last (time_points_to_consider self), t)) (butlast (time_points_to_consider self))
         \<and> (distinct (time_points_to_consider self) \<longrightarrow>
              (\<forall>t \<in> set (time_points_to_consider self).
                 count_list (mask_calls (new_events w w')) (last (time_points_to_consider self), t)
                   = (if t = last (time_points_to_consider self) then 0 else 1)))
         \<and> (time_points_to_consider self = [1, 2, 3, 4, 5] \<longrightarrow>
              mask_calls (new_events w w') = [(5, 1), (5, 2), (5, 3), (5, 4)])"
proof -
  let ?tps = "time_points_to_consider self"
  note calls = mask_calls_extractBrain [OF assms]
  have "count_list (mask_calls (new_events w w')) (last ?tps, t) = (if t = last ?tps then 0 else 1)"
    if "distinct ?tps" and "t \<in> set ?tps" for t
    using that assms(1)
    by (simp add: calls count_list_map_Pair count_list_distinct distinct_butlast
        in_set_butlast_distinct)
  moreover have "mask_calls (new_events w w') = [(5, 1), (5, 2), (5, 3), (5, 4)]"
    if "?tps = [1, 2, 3, 4, 5]"
    using calls that by simp
  ultimately show ?thesis using calls by blast
qed

subsection \<open>Runs that return\<close>

lemma for_each_returns:
  assumes "\<And>x w. fst (f x w) = Inr ()"
  shows "fst (for_each xs f w) = Inr ()"
proof (induction xs arbitrary: w)
  case Nil
  show ?case by simp
next
  case (Cons x xs)
  obtain r w1 where f: "f x w = (r, w1)" by (cases "f x w")
  with assms [of x w] have "r = Inr ()" by simp
  with f Cons.IH [of w1] show ?case by simp
qed

lemma seq_returns:
  assumes "\<And>w. fst (f w) = Inr ()" and "\<And>w. fst (g w) = Inr ()"
  shows "fst (seq f g w) = Inr ()"
proof -
  obtain r w1 where f: "f w = (r, w1)" by (cases "f w")
  with assms(1) [of w] have "r = Inr ()" by simp
  with f assms(2) [of w1] show ?thesis by (simp add: seq_def)
qed

lemma invoke_returns:
  assumes "\<And>t f. fst (run_tool E t f) = None"
  shows "fst (invoke E t w) = Inr ()"
  using assms [of t "fs w"] by (cases "run_tool E t (fs w)") (simp add: invoke_def)

lemma applyBETMask_returns:
  assumes "\<And>t f. fst (run_tool E t f) = None"
    and "registration_method self \<noteq> ''nonlinearfsl''"
  shows "fst (applyBETMask E self e t w) = Inr ()"
  unfolding applyBETMask_def Let_def
  using assms(2)
  by (intro seq_returns)
     (simp_all add: enter_def skip_def rigidFslFLIRT_def affineFslFLIRT_def
        invoke_returns [OF assms(1)])

lemma extractBrain_returns:
  assumes "\<And>t f. fst (run_tool E t f) = None"
    and "registration_method self \<noteq> ''nonlinearfsl''"
    and "time_points_to_consider self \<noteq> []"
  shows "fst (extractBrain E self w) = Inr ()"
  unfolding extractBrain_def Let_def
  using assms(3)
  by (intro seq_returns)
     (simp_all add: enter_def for_each_returns applyBETMask_returns [OF assms(1,2)]
        split: list.splits)

theorem extractBrain_propagates_witness:
  "time_points_to_consider (Process3DFLAIR ''S_1'' 5 [1, 2, 3, 4, 5] ''affinefsl'') \<noteq> []
   \<and> fst (extractBrain demo_env (Process3DFLAIR ''S_1'' 5 [1, 2, 3, 4, 5] ''affinefsl'') demo_world)
       = Inr ()
   \<and> distinct (time_points_to_consider (Process3DFLAIR ''S_1'' 5 [1, 2, 3, 4, 5] ''affinefsl''))
   \<and> mask_calls (new_events demo_world
        (snd (extractBrain demo_env (Process3DFLAIR ''S_1'' 5 [1, 2, 3, 4, 5] ''affinefsl'') demo_world)))
       = [(5, 1), (5, 2), (5, 3), (5, 4)]
   \<and> count_list (mask_calls (new_events demo_world
        (snd (extractBrain demo_env (Process3DFLAIR ''S_1'' 5 [1, 2, 3, 4, 5] ''affinefsl'') demo_world))))
        (5, 5) = 0"
proof -
  define self where "self = Process3DFLAIR ''S_1'' 5 [1, 2, 3, 4, 5] ''affinefsl''"
  define w' where "w' = snd (extractBrain demo_env self demo_world)"
  have tps: "time_points_to_consider self = [1, 2, 3, 4, 5]"
    and meth: "registration_method self \<noteq> ''nonlinearfsl''"
    by (simp_all add: self_def Process3DFLAIR_def)
  have h1: "time_points_to_consider self \<noteq> []"
    by (simp add: tps)
  have tools: "fst (run_tool demo_env t f) = None" for t f
    by (simp add: demo_env_def)
  have ok: "fst (extractBrain demo_env self demo_world) = Inr ()"
    by (rule extractBrain_returns [OF tools meth h1])
  then have h2: "extractBrain demo_env self demo_world = (Inr (), w')"
    unfolding w'_def by (metis prod.collapse)
  have d: "distinct (time_points_to_consider self)"
    by (simp add: tps)
  note main = extractBrain_propagates_to_all_but_template [OF h1 h2]
  have c1: "mask_calls (new_events demo_world w') = [(5, 1), (5, 2), (5, 3), (5, 4)]"
    using main tps by simp
  have "5 \<in> set (time_points_to_consider self)" "last (time_points_to_consider self) = 5"
    by (simp_all add: tps)
  then have c2: "count_list (mask_calls (new_events demo_world w')) (5, 5) = 0"
    using main d by force
  from h1 ok d c1 c2 show ?thesis
    unfolding self_def w'_def by blast
qed

subsection \<open>Stage order\<close>

lemma stage_calls_invoke: "stage_calls (trace (snd (invoke E t w))) = stage_calls (trace w)"
  by (simp add: invoke_trace stage_calls_append)

lemma stage_calls_nib_save: "stage_calls (trace (snd (nib_save img p w))) = stage_calls (trace w)"
  by (simp add: nib_save_def stage_calls_append)

lemma stage_calls_nonlinear:
  "stage_calls (trace (snd (nonlinearFslFNIRT E r p w))) = stage_calls (trace w)"
  by (simp add: nonlinearFslFNIRT_def raise_def stage_calls_invoke split: option.splits)

lemma stage_calls_applyBETMask:
  "stage_calls (trace (snd (applyBETMask E self e t w))) = stage_calls (trace w)"
  unfolding applyBETMask_def Let_def
  by (intro seq_proj_same)
     (simp_all add: enter_def stage_calls_append skip_def rigidFslFLIRT_def affineFslFLIRT_def
        stage_calls_invoke stage_calls_nonlinear)

lemma stage_calls_reorganise_file:
  "stage_calls (trace (snd (reorganise_file self n w))) = stage_calls (trace w)"
  by (simp add: reorganise_file_def Let_def skip_def raise_def shutil_move_def os_remove_def
      split: sum.splits option.splits)

lemma stage_calls_extractBrain:
  "stage_calls (trace (snd (extractBrain E self w))) = stage_calls (trace w) @ [ExtractBrain]"
  unfolding extractBrain_def Let_def
proof (rule seq_proj)
  show "stage_calls (trace (snd (enter ExtractBrain w))) = stage_calls (trace w) @ [ExtractBrain]"
    for w by (simp add: enter_def stage_calls_append)
  show "stage_calls (trace (snd ((case time_points_to_consider self of
            [] \<Rightarrow> raise IndexError
          | _ # _ \<Rightarrow> for_each [0..<length (time_points_to_consider self) - 1]
                       (\<lambda>i. applyBETMask E self (last (time_points_to_consider self))
                              (time_points_to_consider self ! i))) w)))
        = stage_calls (trace w)" for w
    by (simp add: raise_def for_each_proj_same stage_calls_applyBETMask split: list.splits)
qed

lemma stage_calls_correctBiasField:
  "stage_calls (trace (snd (correctBiasField E self m w))) = stage_calls (trace w) @ [CorrectBiasField m]"
  unfolding correctBiasField_def
proof (rule seq_proj)
  show "stage_calls (trace (snd (enter (CorrectBiasField m) w)))
          = stage_calls (trace w) @ [CorrectBiasField m]" for w
    by (simp add: enter_def stage_calls_append)
  have fast: "stage_calls (trace (snd (for_each [0..<length (time_points_to_consider self)]
                (\<lambda>i. invoke E (FAST (brain_file self
                   (current_img_str (time_points_to_consider self ! i))) 5 1 5 True True)) w)))
              = stage_calls (trace w)" for w
    by (simp add: for_each_proj_same stage_calls_invoke)
  have reorg: "stage_calls (trace (snd (reorganise E self w))) = stage_calls (trace w)" for w
    by (simp add: reorganise_def for_each_proj_same stage_calls_reorganise_file)
  show "stage_calls (trace (snd ((if m = ''FSL''
          then seq (for_each [0..<length (time_points_to_consider self)]
                      (\<lambda>i. invoke E (FAST (brain_file self
                         (current_img_str (time_points_to_consider self ! i))) 5 1 5 True True)))
                   (reorganise E self)
          else skip) w))) = stage_calls (trace w)" for w
    using seq_proj_same [of stage_calls, OF fast reorg, of w] by (simp add: skip_def)
qed


lemma stage_calls_save_normalised:
  "stage_calls (trace (snd (save_normalised E self normalized w))) = stage_calls (trace w)"
  unfolding save_normalised_def
  by (intro seq_proj_same for_each_proj_same stage_calls_nib_save stage_calls_invoke)

lemma stage_calls_save_histogram:
  "stage_calls (trace (snd (save_standard_histogram p w))) = stage_calls (trace w)"
  by (simp add: save_standard_histogram_def)

lemma stage_calls_intensityNormalisation:
  "stage_calls (trace (snd (intensityNormalisation E self b w)))
     = stage_calls (trace w) @ [IntensityNormalisation b]"
  unfolding intensityNormalisation_def
  by (rule seq_proj)
     (simp_all add: enter_def stage_calls_append seq_proj_same [of stage_calls]
        stage_calls_save_normalised stage_calls_save_histogram split: sum.splits)

lemma stage_calls_calcVariance:
  "stage_calls (trace (snd (calcVariance self out w))) = stage_calls (trace w) @ [CalcVariance out]"
  unfolding calcVariance_def
  by (rule seq_proj)
     (simp_all add: enter_def stage_calls_append stage_calls_nib_save
        split: sum.splits list.splits)


lemma stage_calls_runVariancePipeline:
  "\<exists>k \<in> {1, 2, 3, 4}.
      stage_calls (trace (snd (runVariancePipeline E self out w)))
        = stage_calls (trace w) @ take k [ExtractBrain, CorrectBiasField ''FSL'', IntensityNormalisation True, CalcVariance out]
      \<and> (fst (runVariancePipeline E self out w) = Inr () \<longrightarrow> k = 4)"
proof -
  obtain r1 w1 where s1: "extractBrain E self w = (r1, w1)"
    by (cases "extractBrain E self w")
  obtain r2 w2 where s2: "correctBiasField E self ''FSL'' w1 = (r2, w2)"
    by (cases "correctBiasField E self ''FSL'' w1")
  obtain r3 w3 where s3: "intensityNormalisation E self True w2 = (r3, w3)"
    by (cases "intensityNormalisation E self True w2")
  obtain r4 w4 where s4: "calcVariance self out w3 = (r4, w4)"
    by (cases "calcVariance self out w3")
  have t1: "stage_calls (trace w1) = stage_calls (trace w) @ [ExtractBrain]"
    using stage_calls_extractBrain [of E self w] s1 by simp
  have t2: "stage_calls (trace w2) = stage_calls (trace w1) @ [CorrectBiasField ''FSL'']"
    using stage_calls_correctBiasField [of E self "''FSL''" w1] s2 by simp
  have t3: "stage_calls (trace w3) = stage_calls (trace w2) @ [IntensityNormalisation True]"
    using stage_calls_intensityNormalisation [of E self True w2] s3 by simp
  have t4: "stage_calls (trace w4) = stage_calls (trace w3) @ [CalcVariance out]"
    using stage_calls_calcVariance [of self out w3] s4 by simp
  show ?thesis
  proof (cases r1)
    case (Inl e)
    with s1 have "runVariancePipeline E self out w = (Inl e, w1)"
      by (simp add: runVariancePipeline_def seq_def)
    with t1 show ?thesis by simp
  next
    case r1: (Inr u1)
    show ?thesis
    proof (cases r2)
      case (Inl e)
      with s1 s2 r1 have "runVariancePipeline E self out w = (Inl e, w2)"
        by (simp add: runVariancePipeline_def seq_def)
      with t1 t2 show ?thesis by simp
    next
      case r2: (Inr u2)
      show ?thesis
      proof (cases r3)
        case (Inl e)
        with s1 s2 s3 r1 r2 have "runVariancePipeline E self out w = (Inl e, w3)"
          by (simp add: runVariancePipeline_def seq_def)
        with t1 t2 t3 show ?thesis by simp
      next
        case r3: (Inr u3)
        with s1 s2 s3 s4 r1 r2 have "runVariancePipeline E self out w = (r4, w4)"
          by (simp add: runVariancePipeline_def seq_def)
        with t1 t2 t3 t4 show ?thesis by simp
      qed
    qed
  qed
qed


lemma demo_run_returns: "fst (runVariancePipeline demo_env demo demo_out demo_world) = Inr ()"
  by code_simp

text \<open>
  C7. Whatever the subject and the state of the file system, \<^verbatim>\<open>runVariancePipeline\<close>
  enters the stages in the order \<^verbatim>\<open>extractBrain\<close>, \<^verbatim>\<open>correctBiasField('FSL')\<close>,
  \<^verbatim>\<open>intensityNormalisation(True)\<close>, \<^verbatim>\<open>calcVariance(out_file)\<close>: the stages
  entered are always an initial part of this list that starts with \<^verbatim>\<open>extractBrain\<close>
  (the run stops early only at a stage that raised), and a run that returns has entered
  all four, each once.
\<close>

theorem runVariancePipeline_stage_order:
  "stage_calls (new_events w (snd (runVariancePipeline E self out w)))
     \<in> {[ExtractBrain],
         [ExtractBrain, CorrectBiasField ''FSL''],
         [ExtractBrain, CorrectBiasField ''FSL'', IntensityNormalisation True],
         [ExtractBrain, CorrectBiasField ''FSL'', IntensityNormalisation True, CalcVariance out]}
   \<and> (fst (runVariancePipeline E self out w) = Inr () \<longrightarrow>
        stage_calls (new_events w (snd (runVariancePipeline E self out w)))
          = [ExtractBrain, CorrectBiasField ''FSL'', IntensityNormalisation True, CalcVariance out])"
proof -
  let ?w' = "snd (runVariancePipeline E self out w)"
  let ?all = "[ExtractBrain, CorrectBiasField ''FSL'', IntensityNormalisation True, CalcVariance out]"
  have "trace ?w' = trace w @ new_events w ?w'"
    using extends_runVariancePipeline [of w E self out] by (simp add: extends_def)
  then have "stage_calls (trace ?w') = stage_calls (trace w) @ stage_calls (new_events w ?w')"
    by (metis stage_calls_append)
  moreover obtain k where "k \<in> {1, 2, 3, 4}"
    and "stage_calls (trace ?w') = stage_calls (trace w) @ take k ?all"
    and "fst (runVariancePipeline E self out w) = Inr () \<longrightarrow> k = 4"
    using stage_calls_runVariancePipeline [of E self out w] by blast
  ultimately have new: "stage_calls (new_events w ?w') = take k ?all"
    and k: "k \<in> {1, 2, 3, 4}"
    and full: "fst (runVariancePipeline E self out w) = Inr () \<longrightarrow> k = 4"
    by simp_all
  from k have "take k ?all \<in> {[ExtractBrain],
         [ExtractBrain, CorrectBiasField ''FSL''],
         [ExtractBrain, CorrectBiasField ''FSL'', IntensityNormalisation True], ?all}"
    by (auto simp: numeral_2_eq_2 numeral_3_eq_3)
  with new full show ?thesis by auto
qed

theorem runVariancePipeline_stage_order_witness:
  "fst (runVariancePipeline demo_env demo demo_out demo_world) = Inr ()
   \<and> stage_calls (new_events demo_world (snd (runVariancePipeline demo_env demo demo_out demo_world)))
       = [ExtractBrain, CorrectBiasField ''FSL'', IntensityNormalisation True, CalcVariance demo_out]"
  using demo_run_returns runVariancePipeline_stage_order [of demo_world demo_env demo demo_out]
  by blast

subsection \<open>Saved images\<close>

lemma saved_invoke: "saved (trace (snd (invoke E t w))) = saved (trace w)"
  by (simp add: invoke_trace saved_append)

lemma saved_for_each_nib_save:
  "saved (trace (snd (for_each xs (\<lambda>i. nib_save (mk i) (pth i)) w)))
     = saved (trace w) @ map (\<lambda>i. (pth i, mk i)) xs"
proof (induction xs arbitrary: w)
  case Nil
  show ?case by simp
next
  case (Cons x xs)
  have "for_each (x # xs) (\<lambda>i. nib_save (mk i) (pth i)) w
          = for_each xs (\<lambda>i. nib_save (mk i) (pth i))
              (w\<lparr>fs := (fs w)(pth x \<mapsto> NiftiFile (mk x)), trace := trace w @ [Save (pth x) (mk x)]\<rparr>)"
    by (simp add: nib_save_def)
  then show ?case by (simp add: Cons.IH saved_append)
qed

lemma saved_save_normalised:
  "saved (trace (snd (save_normalised E self normalized w)))
     = saved (trace w) @
       map (\<lambda>i. (normalised_file self (current_img_str (time_points_to_consider self ! i)),
                 \<lparr>dataobj = normalized ! i, affine = np_eye 4\<rparr>))
         [0..<length (time_points_to_consider self)]"
  unfolding save_normalised_def
  by (rule seq_proj)
     (simp_all add: saved_for_each_nib_save for_each_proj_same [of saved] saved_invoke)

lemma saved_intensityNormalisation:
  "saved (trace (snd (intensityNormalisation E self b w))) = saved (trace w)
   \<or> (\<exists>normalized.
        saved (trace (snd (intensityNormalisation E self b w)))
          = saved (trace w) @
            map (\<lambda>i. (normalised_file self (current_img_str (time_points_to_consider self ! i)),
                      \<lparr>dataobj = normalized ! i, affine = np_eye 4\<rparr>))
              [0..<length (time_points_to_consider self)])"
proof -
  let ?w0 = "w\<lparr>trace := trace w @ [Enter (IntensityNormalisation b)]\<rparr>"
  let ?h = "subject_normalised_directory self @ ''standard_histogram.npy''"
  show ?thesis
  proof (cases "load_images (fs w) (intensityNormalisation_image_paths self b)")
    case (Inl e)
    then show ?thesis
      by (simp add: intensityNormalisation_def seq_def enter_def saved_append)
  next
    case (Inr images)
    show ?thesis
    proof (cases "nyul_fit E images")
      case (Inl e)
      with Inr show ?thesis
        by (simp add: intensityNormalisation_def seq_def enter_def saved_append)
    next
      case fit: (Inr nyul_norm)
      let ?w1 = "?w0\<lparr>fs := (fs ?w0)(?h \<mapsto> OtherFile)\<rparr>"
      have "intensityNormalisation E self b w = save_normalised E self (map nyul_norm images) ?w1"
        using Inr fit
        by (simp add: intensityNormalisation_def seq_def enter_def save_standard_histogram_def)
      then have "saved (trace (snd (intensityNormalisation E self b w)))
          = saved (trace w) @
            map (\<lambda>i. (normalised_file self (current_img_str (time_points_to_consider self ! i)),
                      \<lparr>dataobj = map nyul_norm images ! i, affine = np_eye 4\<rparr>))
              [0..<length (time_points_to_consider self)]"
        by (simp add: saved_save_normalised saved_append)
      then show ?thesis by blast
    qed
  qed
qed

lemma intensityNormalisation_returns_saved:
  assumes "fst (intensityNormalisation E self b w) = Inr ()"
  shows "map fst (saved (trace (snd (intensityNormalisation E self b w))))
           = map fst (saved (trace w)) @
             map (\<lambda>i. normalised_file self (current_img_str (time_points_to_consider self ! i)))
               [0..<length (time_points_to_consider self)]"
proof -
  let ?w0 = "w\<lparr>trace := trace w @ [Enter (IntensityNormalisation b)]\<rparr>"
  let ?h = "subject_normalised_directory self @ ''standard_histogram.npy''"
  obtain images where Inr: "load_images (fs w) (intensityNormalisation_image_paths self b) = Inr images"
    using assms
    by (cases "load_images (fs w) (intensityNormalisation_image_paths self b)")
       (simp_all add: intensityNormalisation_def seq_def enter_def)
  obtain nyul_norm where fit: "nyul_fit E images = Inr nyul_norm"
    using assms Inr
    by (cases "nyul_fit E images") (simp_all add: intensityNormalisation_def seq_def enter_def)
  let ?w1 = "?w0\<lparr>fs := (fs ?w0)(?h \<mapsto> OtherFile)\<rparr>"
  have "intensityNormalisation E self b w = save_normalised E self (map nyul_norm images) ?w1"
    using Inr fit
    by (simp add: intensityNormalisation_def seq_def enter_def save_standard_histogram_def)
  then show ?thesis
    by (simp add: saved_save_normalised saved_append comp_def)
qed

lemma saved_calcVariance:
  "saved (trace (snd (calcVariance self out w))) = saved (trace w)
   \<or> (\<exists>variances. saved (trace (snd (calcVariance self out w)))
         = saved (trace w) @ [(out, \<lparr>dataobj = variances, affine = np_eye 4\<rparr>)])"
  by (auto simp: calcVariance_def seq_def enter_def nib_save_def saved_append
      split: sum.splits list.splits)

lemma calcVariance_returns_saved:
  assumes "fst (calcVariance self out w) = Inr ()"
  shows "map fst (saved (trace (snd (calcVariance self out w)))) = map fst (saved (trace w)) @ [out]"
  using assms
  by (auto simp: calcVariance_def seq_def enter_def nib_save_def saved_append
      split: sum.splits list.splits)


lemma saved_new_events:
  assumes "extends w w'"
  shows "saved (trace w') = saved (trace w) @ saved (new_events w w')"
  using assms by (metis extends_def saved_append)

lemma demo_intensityNormalisation_returns:
  "fst (intensityNormalisation demo_env demo True demo_world) = Inr ()"
  by code_simp

lemma demo_calcVariance_returns: "fst (calcVariance demo demo_out demo_world) = Inr ()"
  by code_simp

lemma scanner_affine_not_identity: "scanner_affine \<noteq> np_eye 4"
  by code_simp

text \<open>
  C10. Every image that \<^verbatim>\<open>intensityNormalisation\<close> or \<^verbatim>\<open>calcVariance\<close> hands to
  \<^verbatim>\<open>nib.save\<close> carries the identity matrix \<^verbatim>\<open>np.eye(4)\<close> as its affine, whatever
  the affines of the volumes that were loaded; a run of \<^verbatim>\<open>intensityNormalisation\<close> that
  returns has saved exactly the normalised file of every configured time point, and a run
  of \<^verbatim>\<open>calcVariance\<close> that returns has saved exactly the variance map.
\<close>

theorem saved_images_have_identity_affine:
  "(\<forall>(p, img) \<in> set (saved (new_events w (snd (intensityNormalisation E self b w)))).
       affine img = np_eye 4)
   \<and> (fst (intensityNormalisation E self b w) = Inr () \<longrightarrow>
        map fst (saved (new_events w (snd (intensityNormalisation E self b w))))
          = map (\<lambda>i. normalised_file self (current_img_str (time_points_to_consider self ! i)))
              [0..<length (time_points_to_consider self)])
   \<and> (\<forall>(p, img) \<in> set (saved (new_events w (snd (calcVariance self out w)))).
        affine img = np_eye 4)
   \<and> (fst (calcVariance self out w) = Inr () \<longrightarrow>
        map fst (saved (new_events w (snd (calcVariance self out w)))) = [out])"
proof -
  let ?n = "snd (intensityNormalisation E self b w)"
  let ?v = "snd (calcVariance self out w)"
  have n: "saved (trace ?n) = saved (trace w) @ saved (new_events w ?n)"
    by (rule saved_new_events) (rule extends_intensityNormalisation)
  have v: "saved (trace ?v) = saved (trace w) @ saved (new_events w ?v)"
    by (rule saved_new_events) (rule extends_calcVariance)
  have "\<forall>(p, img) \<in> set (saved (new_events w ?n)). affine img = np_eye 4"
    using saved_intensityNormalisation [of E self b w] n by auto
  moreover have "map fst (saved (new_events w ?n))
          = map (\<lambda>i. normalised_file self (current_img_str (time_points_to_consider self ! i)))
              [0..<length (time_points_to_consider self)]"
    if "fst (intensityNormalisation E self b w) = Inr ()"
    using intensityNormalisation_returns_saved [OF that] n by simp
  moreover have "\<forall>(p, img) \<in> set (saved (new_events w ?v)). affine img = np_eye 4"
    using saved_calcVariance [of self out w] v by auto
  moreover have "map fst (saved (new_events w ?v)) = [out]"
    if "fst (calcVariance self out w) = Inr ()"
    using calcVariance_returns_saved [OF that] v by simp
  ultimately show ?thesis by blast
qed

theorem saved_images_have_identity_affine_witness:
  "fst (intensityNormalisation demo_env demo True demo_world) = Inr ()
   \<and> fst (calcVariance demo demo_out demo_world) = Inr ()
   \<and> scanner_affine \<noteq> np_eye 4
   \<and> length (saved (new_events demo_world (snd (intensityNormalisation demo_env demo True demo_world)))) = 2
   \<and> list_all (\<lambda>(p, img). affine img = np_eye 4)
        (saved (new_events demo_world (snd (intensityNormalisation demo_env demo True demo_world))))
   \<and> map fst (saved (new_events demo_world (snd (calcVariance demo demo_out demo_world)))) = [demo_out]
   \<and> list_all (\<lambda>(p, img). affine img = np_eye 4)
        (saved (new_events demo_world (snd (calcVariance demo demo_out demo_world))))"
proof -
  note main = saved_images_have_identity_affine [of demo_world demo_env demo True demo_out]
  have tps: "time_points_to_consider demo = [1, 2]"
    by (simp add: demo_def Process3DFLAIR_def)
  have "map fst (saved (new_events demo_world (snd (intensityNormalisation demo_env demo True demo_world))))
          = map (\<lambda>i. normalised_file demo (current_img_str (time_points_to_consider demo ! i)))
              [0..<length (time_points_to_consider demo)]"
    using main demo_intensityNormalisation_returns by blast
  then have "length (map fst (saved (new_events demo_world
               (snd (intensityNormalisation demo_env demo True demo_world))))) = 2"
    by (simp add: tps)
  then have len: "length (saved (new_events demo_world
               (snd (intensityNormalisation demo_env demo True demo_world)))) = 2"
    by simp
  from main have "list_all (\<lambda>(p, img). affine img = np_eye 4)
        (saved (new_events demo_world (snd (intensityNormalisation demo_env demo True demo_world))))"
    and "list_all (\<lambda>(p, img). affine img = np_eye 4)
        (saved (new_events demo_world (snd (calcVariance demo demo_out demo_world))))"
    unfolding list_all_iff by blast+
  moreover from main demo_calcVariance_returns
  have "map fst (saved (new_events demo_world (snd (calcVariance demo demo_out demo_world))))
          = [demo_out]"
    by blast
  ultimately show ?thesis
    using demo_intensityNormalisation_returns demo_calcVariance_returns
      scanner_affine_not_identity len
    by blast
qed

subsection \<open>Loops over local data\<close>

lemma collect_length: "collect f xs = Inr ys \<Longrightarrow> length ys = length xs"
  by (induction xs arbitrary: ys) (auto split: sum.splits)

lemma collect_all_ok:
  assumes "\<And>x. x \<in> set xs \<Longrightarrow> f x = Inr (g x)"
  shows "collect f xs = Inr (map g xs)"
  using assms by (induction xs) simp_all

lemma collect_some_bad:
  assumes "\<And>x. x \<in> set xs \<Longrightarrow> f x = Inl e \<or> (\<exists>y. f x = Inr y)"
    and "\<exists>x \<in> set xs. f x = Inl e"
  shows "collect f xs = Inl e"
  using assms
proof (induction xs)
  case Nil
  then show ?case by simp
next
  case (Cons x xs)
  show ?case
  proof (cases "f x")
    case (Inl e')
    with Cons.prems(1) [of x] show ?thesis by auto
  next
    case (Inr y)
    with Cons.prems have "\<exists>x \<in> set xs. f x = Inl e" by auto
    with Cons.IH Cons.prems(1) have "collect f xs = Inl e" by auto
    with Inr show ?thesis by simp
  qed
qed

lemma iterate_all_ok:
  assumes "\<And>x s. x \<in> set xs \<Longrightarrow> f x s = Inr (g x s)"
  shows "iterate xs f s = Inr (fold g xs s)"
  using assms by (induction xs arbitrary: s) simp_all

lemma iterate_some_bad:
  assumes "\<And>x s. x \<in> set xs \<Longrightarrow> bad x \<Longrightarrow> f x s = Inl e"
    and "\<And>x s. x \<in> set xs \<Longrightarrow> \<not> bad x \<Longrightarrow> \<exists>s'. f x s = Inr s'"
    and "\<exists>x \<in> set xs. bad x"
  shows "iterate xs f s = Inl e"
  using assms
proof (induction xs arbitrary: s)
  case Nil
  then show ?case by simp
next
  case (Cons x xs)
  show ?case
  proof (cases "bad x")
    case True
    with Cons.prems(1) [of x s] show ?thesis by simp
  next
    case False
    with Cons.prems(2) [of x s] obtain s' where s': "f x s = Inr s'" by auto
    from False Cons.prems(3) have "\<exists>x \<in> set xs. bad x" by auto
    with Cons.IH [of s'] Cons.prems(1,2) have "iterate xs f s' = Inl e" by auto
    with s' show ?thesis by simp
  qed
qed

text \<open>Painting: a loop whose steps each overwrite a set of voxels with their value.\<close>

lemma fold_paint:
  assumes "\<And>x v idx. x \<in> set xs \<Longrightarrow>
             elems (st x v) idx = (if idx \<in> S x then val idx else elems v idx)"
  shows "elems (fold st xs v) idx = (if idx \<in> (\<Union>x \<in> set xs. S x) then val idx else elems v idx)"
  using assms by (induction xs arbitrary: v) auto

lemma fold_shape:
  assumes "\<And>x v. x \<in> set xs \<Longrightarrow> shape (st x v) = shape v"
  shows "shape (fold st xs v) = shape v"
  using assms by (induction xs arbitrary: v) auto


subsection \<open>The variance loops\<close>

lemma voxel_intensities_ok:
  assumes "\<forall>im \<in> set images. in_bounds (shape im) idx"
  shows "voxel_intensities images (length images) idx = Inr (map (\<lambda>im. elems im idx) images)"
proof -
  have "collect (\<lambda>n. getitem (images ! n) idx) [0..<length images]
          = Inr (map (\<lambda>n. elems (images ! n) idx) [0..<length images])"
    using assms by (intro collect_all_ok) (simp add: getitem_def)
  moreover have "map (\<lambda>n. elems (images ! n) idx) [0..<length images]
                   = map (\<lambda>im. elems im idx) images"
    by (rule nth_equalityI) simp_all
  ultimately show ?thesis by (simp add: voxel_intensities_def)
qed

lemma voxel_intensities_bad:
  assumes "\<not> (\<forall>im \<in> set images. in_bounds (shape im) idx)"
  shows "voxel_intensities images (length images) idx = Inl IndexError"
  unfolding voxel_intensities_def
proof (rule collect_some_bad)
  show "getitem (images ! n) idx = Inl IndexError \<or> (\<exists>y. getitem (images ! n) idx = Inr y)" for n
    by (simp add: getitem_def)
  from assms obtain im where "im \<in> set images" and "\<not> in_bounds (shape im) idx" by blast
  then obtain n where "n < length images" and "\<not> in_bounds (shape (images ! n)) idx"
    by (auto simp: in_set_conv_nth)
  then show "\<exists>n \<in> set [0..<length images]. getitem (images ! n) idx = Inl IndexError"
    by (auto simp: getitem_def)
qed

lemma in_bounds_iff:
  "in_bounds (nx, ny, nz) idx \<longleftrightarrow>
     idx \<in> (\<Union>i \<in> set [0..<nx]. \<Union>j \<in> set [0..<ny]. \<Union>k \<in> set [0..<nz]. {(i, j, k)})"
  by (cases idx) (auto simp: in_bounds_def)

lemma variance_loops_ok:
  assumes "\<And>idx. in_bounds (shape v0) idx \<Longrightarrow> \<forall>im \<in> set images. in_bounds (shape im) idx"
  shows "\<exists>v. variance_loops images (length images) v0 = Inr v
             \<and> shape v = shape v0
             \<and> (\<forall>idx. in_bounds (shape v0) idx \<longrightarrow>
                   elems v idx = np_var (map (\<lambda>im. elems im idx) images))"
proof -
  obtain nx ny nz where sh: "shape v0 = (nx, ny, nz)" by (cases "shape v0")
  define val where "val idx = np_var (map (\<lambda>im. elems im idx) images)" for idx
  define kstep where "kstep i j k v =
     (case voxel_intensities images (length images) (i, j, k) of
        Inl e \<Rightarrow> Inl e
      | Inr xs \<Rightarrow> Inr (setitem v (i, j, k) (np_var xs)))" for i j k and v :: ndarray
  define K where "K i j = fold (\<lambda>k v. setitem v (i, j, k) (val (i, j, k))) [0..<nz]" for i j
  define J where "J i = fold (\<lambda>j. K i j) [0..<ny]" for i
  have kstep_ok: "kstep i j k v = Inr (setitem v (i, j, k) (val (i, j, k)))"
    if "i < nx" "j < ny" "k < nz" for i j k v
  proof -
    have "in_bounds (shape v0) (i, j, k)" using that by (simp add: sh in_bounds_def)
    then show ?thesis
      using assms by (simp add: kstep_def voxel_intensities_ok val_def)
  qed
  have k_loop: "iterate [0..<nz] (kstep i j) v = Inr (K i j v)" if "i < nx" "j < ny" for i j v
    unfolding K_def using that by (intro iterate_all_ok) (simp add: kstep_ok)
  have j_loop: "iterate [0..<ny] (\<lambda>j. iterate [0..<nz] (kstep i j)) v = Inr (J i v)"
    if "i < nx" for i v
    unfolding J_def using that by (intro iterate_all_ok) (simp add: k_loop)
  have i_loop: "iterate [0..<nx] (\<lambda>i. iterate [0..<ny] (\<lambda>j. iterate [0..<nz] (kstep i j))) v0
                  = Inr (fold J [0..<nx] v0)"
    by (intro iterate_all_ok) (simp add: j_loop)
  have kstep_eq: "kstep i j = (\<lambda>k v.
     (case voxel_intensities images (length images) (i, j, k) of
        Inl e \<Rightarrow> Inl e
      | Inr xs \<Rightarrow> Inr (setitem v (i, j, k) (np_var xs))))" for i j
    by (intro ext) (simp add: kstep_def)
  have run: "variance_loops images (length images) v0 = Inr (fold J [0..<nx] v0)"
    using i_loop by (simp add: variance_loops_def sh kstep_eq)
  have K_shape: "shape (K i j v) = shape v" for i j v
    unfolding K_def by (rule fold_shape) (simp add: setitem_def)
  have J_shape: "shape (J i v) = shape v" for i v
    unfolding J_def by (rule fold_shape) (simp add: K_shape)
  have I_shape: "shape (fold J [0..<nx] v0) = shape v0"
    by (rule fold_shape) (simp add: J_shape)
  have K_elems: "elems (K i j v) idx =
      (if idx \<in> (\<Union>k \<in> set [0..<nz]. {(i, j, k)}) then val idx else elems v idx)" for i j v idx
    unfolding K_def by (rule fold_paint) (simp add: setitem_def)
  have J_elems: "elems (J i v) idx =
      (if idx \<in> (\<Union>j \<in> set [0..<ny]. \<Union>k \<in> set [0..<nz]. {(i, j, k)}) then val idx
       else elems v idx)" for i v idx
    unfolding J_def by (rule fold_paint) (rule K_elems)
  have I_elems: "elems (fold J [0..<nx] v0) idx =
      (if idx \<in> (\<Union>i \<in> set [0..<nx]. \<Union>j \<in> set [0..<ny]. \<Union>k \<in> set [0..<nz]. {(i, j, k)})
       then val idx else elems v0 idx)" for idx
    by (rule fold_paint) (rule J_elems)
  have "elems (fold J [0..<nx] v0) idx = val idx" if "in_bounds (shape v0) idx" for idx
    using that I_elems [of idx] in_bounds_iff [of nx ny nz idx] by (simp add: sh)
  with run I_shape show ?thesis by (auto simp: val_def)
qed


lemma iterate_total:
  assumes "\<And>x s. x \<in> set xs \<Longrightarrow> \<exists>s'. f x s = Inr s'"
  shows "\<exists>s'. iterate xs f s = Inr s'"
  using assms
proof (induction xs arbitrary: s)
  case Nil
  show ?case by simp
next
  case (Cons x xs)
  from Cons.prems [of x s] obtain s1 where "f x s = Inr s1" by auto
  moreover from Cons.IH [of s1] Cons.prems obtain s2 where "iterate xs f s1 = Inr s2" by auto
  ultimately show ?case by simp
qed

lemma variance_loops_bad:
  assumes "in_bounds (shape v0) idx0"
    and "\<not> (\<forall>im \<in> set images. in_bounds (shape im) idx0)"
  shows "variance_loops images (length images) v0 = Inl IndexError"
proof -
  obtain nx ny nz where sh: "shape v0 = (nx, ny, nz)" by (cases "shape v0")
  obtain i0 j0 k0 where idx0: "idx0 = (i0, j0, k0)" by (cases idx0)
  from assms(1) have lt: "i0 < nx" "j0 < ny" "k0 < nz"
    by (simp_all add: sh idx0 in_bounds_def)
  define okv where "okv idx = (\<forall>im \<in> set images. in_bounds (shape im) idx)" for idx
  define kstep where "kstep i j = (\<lambda>k v.
     (case voxel_intensities images (length images) (i, j, k) of
        Inl e \<Rightarrow> Inl e
      | Inr xs \<Rightarrow> Inr (setitem v (i, j, k) (np_var xs))))" for i j
  have k_bad: "kstep i j k v = Inl IndexError" if "\<not> okv (i, j, k)" for i j k and v :: ndarray
    using that by (simp add: kstep_def okv_def voxel_intensities_bad)
  have k_ok: "\<exists>s'. kstep i j k v = Inr s'" if "okv (i, j, k)" for i j k and v :: ndarray
    using that by (simp add: kstep_def okv_def voxel_intensities_ok)
  have kl_bad: "iterate [0..<nz] (kstep i j) v = Inl IndexError"
    if "\<exists>k \<in> set [0..<nz]. \<not> okv (i, j, k)" for i j v
    by (rule iterate_some_bad [where bad = "\<lambda>k. \<not> okv (i, j, k)"])
       (use that k_bad k_ok in auto)
  have kl_ok: "\<exists>s'. iterate [0..<nz] (kstep i j) v = Inr s'"
    if "\<not> (\<exists>k \<in> set [0..<nz]. \<not> okv (i, j, k))" for i j v
    by (rule iterate_total) (use that k_ok in auto)
  have jl_bad: "iterate [0..<ny] (\<lambda>j. iterate [0..<nz] (kstep i j)) v = Inl IndexError"
    if "\<exists>j \<in> set [0..<ny]. \<exists>k \<in> set [0..<nz]. \<not> okv (i, j, k)" for i v
    by (rule iterate_some_bad [where bad = "\<lambda>j. \<exists>k \<in> set [0..<nz]. \<not> okv (i, j, k)"])
       (use that kl_bad kl_ok in auto)
  have jl_ok: "\<exists>s'. iterate [0..<ny] (\<lambda>j. iterate [0..<nz] (kstep i j)) v = Inr s'"
    if "\<not> (\<exists>j \<in> set [0..<ny]. \<exists>k \<in> set [0..<nz]. \<not> okv (i, j, k))" for i v
    by (rule iterate_total) (use that kl_ok in auto)
  have ex: "\<exists>i \<in> set [0..<nx]. \<exists>j \<in> set [0..<ny]. \<exists>k \<in> set [0..<nz]. \<not> okv (i, j, k)"
  proof -
    have "\<not> okv (i0, j0, k0)" using assms(2) by (simp add: okv_def idx0)
    with lt show ?thesis by (intro bexI [of _ i0] bexI [of _ j0] bexI [of _ k0]) simp_all
  qed
  have "iterate [0..<nx] (\<lambda>i. iterate [0..<ny] (\<lambda>j. iterate [0..<nz] (kstep i j))) v0
          = Inl IndexError"
    by (rule iterate_some_bad
          [where bad = "\<lambda>i. \<exists>j \<in> set [0..<ny]. \<exists>k \<in> set [0..<nz]. \<not> okv (i, j, k)"])
       (use ex jl_bad jl_ok in auto)
  then show ?thesis
    by (simp add: variance_loops_def sh kstep_def)
qed

subsection \<open>The variance map\<close>

lemma fits_in_iff: "fits_in s t \<longleftrightarrow> (\<forall>idx. in_bounds s idx \<longrightarrow> in_bounds t idx)"
proof -
  obtain a b c where s: "s = (a, b, c)" by (cases s)
  obtain x y z where t: "t = (x, y, z)" by (cases t)
  show ?thesis
  proof
    assume "fits_in s t"
    then show "\<forall>idx. in_bounds s idx \<longrightarrow> in_bounds t idx"
      by (auto simp: fits_in_def in_bounds_def s t)
  next
    assume all: "\<forall>idx. in_bounds s idx \<longrightarrow> in_bounds t idx"
    show "fits_in s t"
    proof (cases "a = 0 \<or> b = 0 \<or> c = 0")
      case True
      then show ?thesis by (auto simp: fits_in_def s t)
    next
      case False
      then have "in_bounds s (a - 1, b - 1, c - 1)" by (simp add: in_bounds_def s)
      with all have "in_bounds t (a - 1, b - 1, c - 1)" by blast
      with False show ?thesis by (auto simp: fits_in_def in_bounds_def s t)
    qed
  qed
qed

lemma load_images_length:
  "load_images f paths = Inr images \<Longrightarrow> length images = length paths"
  by (simp add: load_images_def collect_length)

lemma calcVariance_loaded:
  assumes "load_images (fs w) (calcVariance_image_paths self) = Inr images"
    and "images \<noteq> []"
  shows "calcVariance self out w =
           (case variance_loops images (length images) (np_zeros (shape (hd images))) of
              Inl e \<Rightarrow> (Inl e, w\<lparr>trace := trace w @ [Enter (CalcVariance out)]\<rparr>)
            | Inr variances \<Rightarrow>
                nib_save \<lparr>dataobj = variances, affine = np_eye 4\<rparr> out
                  (w\<lparr>trace := trace w @ [Enter (CalcVariance out)]\<rparr>))"
proof -
  have len: "length (time_points_to_consider self) = length images"
    using load_images_length [OF assms(1)] by (simp add: calcVariance_image_paths_def)
  obtain first rest where im: "images = first # rest"
    using assms(2) by (cases images) auto
  show ?thesis
    using assms(1) by (simp add: calcVariance_def seq_def enter_def len im)
qed

lemma calcVariance_fits:
  assumes "load_images (fs w) (calcVariance_image_paths self) = Inr images"
    and "images \<noteq> []"
    and "\<forall>im \<in> set images. fits_in (shape (hd images)) (shape im)"
  shows "\<exists>v. calcVariance self out w =
               (Inr (), w\<lparr>trace := trace w @ [Enter (CalcVariance out),
                                       Save out \<lparr>dataobj = v, affine = np_eye 4\<rparr>],
                          fs := (fs w)(out \<mapsto> NiftiFile \<lparr>dataobj = v, affine = np_eye 4\<rparr>)\<rparr>)
           \<and> shape v = shape (hd images)
           \<and> (\<forall>idx. in_bounds (shape (hd images)) idx \<longrightarrow>
                 elems v idx = np_var (map (\<lambda>im. elems im idx) images))"
proof -
  have "\<forall>im \<in> set images. in_bounds (shape im) idx"
    if "in_bounds (shape (np_zeros (shape (hd images)))) idx" for idx
  proof
    fix im assume "im \<in> set images"
    with assms(3) have "fits_in (shape (hd images)) (shape im)" by blast
    then have "\<forall>idx. in_bounds (shape (hd images)) idx \<longrightarrow> in_bounds (shape im) idx"
      by (simp only: fits_in_iff)
    moreover have "in_bounds (shape (hd images)) idx"
      using that by (simp add: np_zeros_def)
    ultimately show "in_bounds (shape im) idx" by blast
  qed
  from variance_loops_ok [of "np_zeros (shape (hd images))" images, OF this]
  obtain v where v: "variance_loops images (length images) (np_zeros (shape (hd images))) = Inr v"
    and sh: "shape v = shape (hd images)"
    and el: "\<forall>idx. in_bounds (shape (hd images)) idx \<longrightarrow>
               elems v idx = np_var (map (\<lambda>im. elems im idx) images)"
    by (auto simp: np_zeros_def)
  have "calcVariance self out w =
          (Inr (), w\<lparr>trace := trace w @ [Enter (CalcVariance out),
                                       Save out \<lparr>dataobj = v, affine = np_eye 4\<rparr>],
                     fs := (fs w)(out \<mapsto> NiftiFile \<lparr>dataobj = v, affine = np_eye 4\<rparr>)\<rparr>)"
    by (simp add: calcVariance_loaded [OF assms(1,2)] v nib_save_def)
  with sh el show ?thesis by blast
qed

lemma calcVariance_not_fits:
  assumes "load_images (fs w) (calcVariance_image_paths self) = Inr images"
    and "images \<noteq> []"
    and "\<not> (\<forall>im \<in> set images. fits_in (shape (hd images)) (shape im))"
  shows "calcVariance self out w = (Inl IndexError, w\<lparr>trace := trace w @ [Enter (CalcVariance out)]\<rparr>)"
proof -
  from assms(3) obtain im idx where "im \<in> set images"
    and "in_bounds (shape (hd images)) idx" and "\<not> in_bounds (shape im) idx"
    by (auto simp: fits_in_iff)
  then have "variance_loops images (length images) (np_zeros (shape (hd images))) = Inl IndexError"
    by (intro variance_loops_bad [of _ idx]) (auto simp: np_zeros_def)
  then show ?thesis
    by (simp add: calcVariance_loaded [OF assms(1,2)])
qed


lemma demo_time_point_strings: "current_img_str 1 = ''01''" "current_img_str 2 = ''02''"
  by code_simp+

lemma demo_calcVariance_image_paths:
  "calcVariance_image_paths demo = [normalised_file demo ''01'', normalised_file demo ''02'']"
  by (simp add: calcVariance_image_paths_def demo_def Process3DFLAIR_def demo_time_point_strings
      upt_rec [of 0 2] upt_rec [of 1 2])

lemma normalised_file_demo_distinct: "normalised_file demo ''01'' \<noteq> normalised_file demo ''02''"
  by (simp add: normalised_file_def)

lemma demo_loaded:
  "load_images (fs demo_world) (calcVariance_image_paths demo)
     = Inr [const_volume (1, 1, 1) 10, const_volume (1, 1, 1) 20]"
  unfolding demo_calcVariance_image_paths
  by (simp add: load_images_def nib_load_def demo_world_def
      demo_fs_def scan_def normalised_file_def nifti_file_def brain_file_def brain_file_mask_def
      registered_whole_brain_file_def bias_restore_file_def affine_file_path_def demo_def
      Process3DFLAIR_def demo_out_def)

lemma mismatch_loaded:
  "load_images (fs mismatch_world) (calcVariance_image_paths demo)
     = Inr [const_volume (1, 1, 1) 10, const_volume (2, 1, 1) 20]"
  unfolding demo_calcVariance_image_paths
  using normalised_file_demo_distinct
  by (simp add: load_images_def nib_load_def mismatch_world_def scan_def)

lemma mismatch_rev_loaded:
  "load_images (fs mismatch_world_rev) (calcVariance_image_paths demo)
     = Inr [const_volume (2, 1, 1) 10, const_volume (1, 1, 1) 20]"
  unfolding demo_calcVariance_image_paths
  using normalised_file_demo_distinct
  by (simp add: load_images_def nib_load_def mismatch_world_rev_def scan_def)

text \<open>
  C2. When the normalised volumes that \<^verbatim>\<open>calcVariance\<close> loads (at least one) all have
  the same shape, the call returns and the image it writes to the output path has that
  shape and holds, at every voxel, the population variance of that voxel's intensities
  across the loaded volumes: the mean of the squared deviations from their mean. For two
  volumes that are 10 and 20 at every voxel, every voxel of the map is 25.
\<close>

theorem calcVariance_population_variance:
  assumes "load_images (fs w) (calcVariance_image_paths self) = Inr images"
    and "images \<noteq> []"
    and "\<forall>im \<in> set images. shape im = s"
  shows "fst (calcVariance self out w) = Inr ()
         \<and> (\<exists>v. fs (snd (calcVariance self out w)) out
                   = Some (NiftiFile \<lparr>dataobj = v, affine = np_eye 4\<rparr>)
                \<and> shape v = s
                \<and> (\<forall>idx. in_bounds s idx \<longrightarrow>
                      elems v idx =
                        (let xs = map (\<lambda>im. elems im idx) images;
                             m = sum_list xs / real (length xs)
                         in sum_list (map (\<lambda>x. (x - m)\<^sup>2) xs) / real (length xs)))
                \<and> ((\<exists>a b. images = [a, b]
                       \<and> (\<forall>idx. in_bounds s idx \<longrightarrow> elems a idx = 10 \<and> elems b idx = 20))
                    \<longrightarrow> (\<forall>idx. in_bounds s idx \<longrightarrow> elems v idx = 25)))"
proof -
  have hd: "shape (hd images) = s"
    using assms(2,3) by (cases images) auto
  have fits: "\<forall>im \<in> set images. fits_in (shape (hd images)) (shape im)"
    using assms(3) hd by (auto simp: fits_in_iff)
  from calcVariance_fits [OF assms(1,2) fits, of out]
  obtain v where run: "calcVariance self out w =
               (Inr (), w\<lparr>trace := trace w @ [Enter (CalcVariance out),
                                       Save out \<lparr>dataobj = v, affine = np_eye 4\<rparr>],
                          fs := (fs w)(out \<mapsto> NiftiFile \<lparr>dataobj = v, affine = np_eye 4\<rparr>)\<rparr>)"
    and sh: "shape v = s"
    and el: "\<forall>idx. in_bounds s idx \<longrightarrow> elems v idx = np_var (map (\<lambda>im. elems im idx) images)"
    by (auto simp: hd)
  have var: "\<forall>idx. in_bounds s idx \<longrightarrow>
               elems v idx =
                 (let xs = map (\<lambda>im. elems im idx) images;
                      m = sum_list xs / real (length xs)
                  in sum_list (map (\<lambda>x. (x - m)\<^sup>2) xs) / real (length xs))"
    using el by (simp add: np_var_def np_mean_def Let_def)
  have "elems v idx = 25"
    if "images = [a, b]"
      and "\<forall>idx. in_bounds s idx \<longrightarrow> elems a idx = 10 \<and> elems b idx = 20"
      and "in_bounds s idx" for a b idx
  proof -
    from that(2) that(3) have "elems a idx = 10 \<and> elems b idx = 20" by blast
    with that(1) have "map (\<lambda>im. elems im idx) images = [10, 20]" by simp
    moreover from el that(3) have "elems v idx = np_var (map (\<lambda>im. elems im idx) images)"
      by blast
    ultimately have "elems v idx = np_var [10, 20]" by simp
    then show ?thesis by (simp add: np_var_def np_mean_def)
  qed
  then have uniform: "(\<exists>a b. images = [a, b]
                       \<and> (\<forall>idx. in_bounds s idx \<longrightarrow> elems a idx = 10 \<and> elems b idx = 20))
                    \<longrightarrow> (\<forall>idx. in_bounds s idx \<longrightarrow> elems v idx = 25)"
    by blast
  have "fs (snd (calcVariance self out w)) out = Some (NiftiFile \<lparr>dataobj = v, affine = np_eye 4\<rparr>)"
    and "fst (calcVariance self out w) = Inr ()"
    by (simp_all add: run)
  with sh var uniform show ?thesis by blast
qed

theorem calcVariance_population_variance_witness:
  "load_images (fs demo_world) (calcVariance_image_paths demo)
     = Inr [const_volume (1, 1, 1) 10, const_volume (1, 1, 1) 20]
   \<and> map shape [const_volume (1, 1, 1) 10, const_volume (1, 1, 1) 20] = [(1, 1, 1), (1, 1, 1)]
   \<and> fst (calcVariance demo demo_out demo_world) = Inr ()
   \<and> (\<exists>v. fs (snd (calcVariance demo demo_out demo_world)) demo_out
             = Some (NiftiFile \<lparr>dataobj = v, affine = np_eye 4\<rparr>)
          \<and> shape v = (1, 1, 1) \<and> elems v (0, 0, 0) = 25)"
proof -
  let ?images = "[const_volume (1, 1, 1) 10, const_volume (1, 1, 1) 20]"
  have h2: "?images \<noteq> []" by simp
  have h3: "\<forall>im \<in> set ?images. shape im = (1, 1, 1)"
    by (simp add: const_volume_def)
  have uni: "\<exists>a b. ?images = [a, b]
       \<and> (\<forall>idx. in_bounds (1, 1, 1) idx \<longrightarrow> elems a idx = 10 \<and> elems b idx = 20)"
    by (simp add: const_volume_def)
  have inb: "in_bounds (1, 1, 1) (0, 0, 0)"
    by (simp add: in_bounds_def)
  from calcVariance_population_variance [OF demo_loaded h2 h3, of demo_out] uni inb
  have "fst (calcVariance demo demo_out demo_world) = Inr ()
        \<and> (\<exists>v. fs (snd (calcVariance demo demo_out demo_world)) demo_out
                  = Some (NiftiFile \<lparr>dataobj = v, affine = np_eye 4\<rparr>)
               \<and> shape v = (1, 1, 1) \<and> elems v (0, 0, 0) = 25)"
    by blast
  moreover have "map shape ?images = [(1, 1, 1), (1, 1, 1)]"
    by (simp add: const_volume_def)
  ultimately show ?thesis using demo_loaded by blast
qed

subsection \<open>Volumes of different shapes\<close>

text \<open>
  C3. \<^verbatim>\<open>calcVariance\<close> never compares the shapes of the volumes it loaded (at least
  one). When every voxel of the first volume's grid is a voxel of every other volume, it
  returns and writes a map of the first volume's shape, also when the shapes differ; when
  some voxel of the first volume's grid is missing from another volume, the read of that
  voxel raises IndexError, the file system is left as it was and nothing is saved.
\<close>

theorem calcVariance_without_shape_check:
  assumes "load_images (fs w) (calcVariance_image_paths self) = Inr images"
    and "images \<noteq> []"
  shows "((\<forall>im \<in> set images. fits_in (shape (hd images)) (shape im)) \<longrightarrow>
            fst (calcVariance self out w) = Inr ()
            \<and> (\<exists>v. fs (snd (calcVariance self out w)) out
                      = Some (NiftiFile \<lparr>dataobj = v, affine = np_eye 4\<rparr>)
                   \<and> shape v = shape (hd images)))
         \<and> (\<not> (\<forall>im \<in> set images. fits_in (shape (hd images)) (shape im)) \<longrightarrow>
            fst (calcVariance self out w) = Inl IndexError
            \<and> fs (snd (calcVariance self out w)) = fs w
            \<and> saved (new_events w (snd (calcVariance self out w))) = [])"
proof (intro conjI impI)
  assume fits: "\<forall>im \<in> set images. fits_in (shape (hd images)) (shape im)"
  from calcVariance_fits [OF assms fits, of out]
  obtain v where run: "calcVariance self out w =
               (Inr (), w\<lparr>trace := trace w @ [Enter (CalcVariance out),
                                       Save out \<lparr>dataobj = v, affine = np_eye 4\<rparr>],
                          fs := (fs w)(out \<mapsto> NiftiFile \<lparr>dataobj = v, affine = np_eye 4\<rparr>)\<rparr>)"
    and sh: "shape v = shape (hd images)"
    by blast
  show "fst (calcVariance self out w) = Inr ()"
    by (simp add: run)
  have "fs (snd (calcVariance self out w)) out = Some (NiftiFile \<lparr>dataobj = v, affine = np_eye 4\<rparr>)"
    by (simp add: run)
  with sh show "\<exists>v. fs (snd (calcVariance self out w)) out
                      = Some (NiftiFile \<lparr>dataobj = v, affine = np_eye 4\<rparr>)
                   \<and> shape v = shape (hd images)"
    by blast
next
  assume nofit: "\<not> (\<forall>im \<in> set images. fits_in (shape (hd images)) (shape im))"
  note run = calcVariance_not_fits [OF assms nofit, of out]
  show "fst (calcVariance self out w) = Inl IndexError"
    by (simp add: run)
  show "fs (snd (calcVariance self out w)) = fs w"
    by (simp add: run)
  have "trace (snd (calcVariance self out w)) = trace w @ [Enter (CalcVariance out)]"
    by (simp add: run)
  then have "new_events w (snd (calcVariance self out w)) = [Enter (CalcVariance out)]"
    by (rule new_events_append)
  then show "saved (new_events w (snd (calcVariance self out w))) = []"
    by simp
qed

theorem calcVariance_without_shape_check_witness:
  "load_images (fs mismatch_world) (calcVariance_image_paths demo)
     = Inr [const_volume (1, 1, 1) 10, const_volume (2, 1, 1) 20]
   \<and> list_all (\<lambda>im. fits_in (shape (hd [const_volume (1, 1, 1) 10, const_volume (2, 1, 1) 20]))
                        (shape im))
        [const_volume (1, 1, 1) 10, const_volume (2, 1, 1) 20]
   \<and> fst (calcVariance demo demo_out mismatch_world) = Inr ()
   \<and> (\<exists>v. fs (snd (calcVariance demo demo_out mismatch_world)) demo_out
             = Some (NiftiFile \<lparr>dataobj = v, affine = np_eye 4\<rparr>) \<and> shape v = (1, 1, 1))
   \<and> load_images (fs mismatch_world_rev) (calcVariance_image_paths demo)
     = Inr [const_volume (2, 1, 1) 10, const_volume (1, 1, 1) 20]
   \<and> \<not> list_all (\<lambda>im. fits_in (shape (hd [const_volume (2, 1, 1) 10, const_volume (1, 1, 1) 20]))
                          (shape im))
          [const_volume (2, 1, 1) 10, const_volume (1, 1, 1) 20]
   \<and> fst (calcVariance demo demo_out mismatch_world_rev) = Inl IndexError
   \<and> fs (snd (calcVariance demo demo_out mismatch_world_rev)) = fs mismatch_world_rev"
proof -
  let ?a = "[const_volume (1, 1, 1) 10, const_volume (2, 1, 1) 20]"
  let ?b = "[const_volume (2, 1, 1) 10, const_volume (1, 1, 1) 20]"
  have fa: "\<forall>im \<in> set ?a. fits_in (shape (hd ?a)) (shape im)"
    by (simp add: const_volume_def fits_in_def)
  have fb: "\<not> (\<forall>im \<in> set ?b. fits_in (shape (hd ?b)) (shape im))"
    by (simp add: const_volume_def fits_in_def)
  have ne: "?a \<noteq> []" "?b \<noteq> []" by simp_all
  have hd: "shape (hd ?a) = (1, 1, 1)" by (simp add: const_volume_def)
  from calcVariance_without_shape_check [OF mismatch_loaded ne(1), of demo_out] fa
  have a: "fst (calcVariance demo demo_out mismatch_world) = Inr ()
          \<and> (\<exists>v. fs (snd (calcVariance demo demo_out mismatch_world)) demo_out
             = Some (NiftiFile \<lparr>dataobj = v, affine = np_eye 4\<rparr>) \<and> shape v = (1, 1, 1))"
    unfolding hd by blast
  from calcVariance_without_shape_check [OF mismatch_rev_loaded ne(2), of demo_out] fb
  have b: "fst (calcVariance demo demo_out mismatch_world_rev) = Inl IndexError
          \<and> fs (snd (calcVariance demo demo_out mismatch_world_rev)) = fs mismatch_world_rev"
    by blast
  from fa have la: "list_all (\<lambda>im. fits_in (shape (hd ?a)) (shape im)) ?a"
    unfolding list_all_iff by blast
  from fb have lb: "\<not> list_all (\<lambda>im. fits_in (shape (hd ?b)) (shape im)) ?b"
    unfolding list_all_iff by blast
  from mismatch_loaded la a mismatch_rev_loaded lb b show ?thesis by blast
qed

theorem shape_mismatch_not_detected:
  "map_sum id (map shape) (load_images (fs mismatch_world) (calcVariance_image_paths demo))
     = Inr [(1, 1, 1), (2, 1, 1)]
   \<and> Option.is_none (fs mismatch_world demo_out)
   \<and> fst (calcVariance demo demo_out mismatch_world) = Inr ()
   \<and> \<not> Option.is_none (fs (snd (calcVariance demo demo_out mismatch_world)) demo_out)
   \<and> map fst (saved (new_events mismatch_world (snd (calcVariance demo demo_out mismatch_world))))
       = [demo_out]"
  by code_simp

subsection \<open>Reorganising the output of bias correction\<close>

lemma os_path_join_dir:
  assumes "d \<noteq> []" and "last d = CHR ''/''" and "CHR ''/'' \<notin> set n"
  shows "os_path_join d n = d @ n"
proof -
  have "\<not> startswith n ''/''"
    using assms(3) by (cases n) (auto simp: startswith_def)
  with assms(1,2) show ?thesis by (simp add: os_path_join_def)
qed

lemma join_brain:
  "CHR ''/'' \<notin> set n \<Longrightarrow>
     os_path_join (subject_brain_directory (Process3DFLAIR sid num tps method)) n
       = ''/home/ela/Documents/B-RAPIDD/'' @ sid @ ''/3D-FLAIR/'' @ ''brain_nifti/'' @ n"
  by (subst os_path_join_dir) (simp_all add: Process3DFLAIR_def)

lemma join_bias:
  "CHR ''/'' \<notin> set n \<Longrightarrow>
     os_path_join (subject_bias_directory (Process3DFLAIR sid num tps method)) n
       = ''/home/ela/Documents/B-RAPIDD/'' @ sid @ ''/3D-FLAIR/'' @ ''bias_nifti/'' @ n"
  by (subst os_path_join_dir) (simp_all add: Process3DFLAIR_def)

lemma join_fields:
  "CHR ''/'' \<notin> set n \<Longrightarrow>
     os_path_join (subject_bias_fields_directory (Process3DFLAIR sid num tps method)) n
       = ''/home/ela/Documents/B-RAPIDD/'' @ sid @ ''/3D-FLAIR/'' @ ''bias_nifti/'' @ ''fields/'' @ n"
  by (subst os_path_join_dir) (simp_all add: Process3DFLAIR_def)

lemma reorganise_file_plan:
  "reorganise_file self n =
     (case planned_action self n of
        Inl e \<Rightarrow> raise e
      | Inr MoveToBias \<Rightarrow> shutil_move (os_path_join (subject_brain_directory self) n)
                            (os_path_join (subject_bias_directory self) n)
      | Inr MoveToFields \<Rightarrow> shutil_move (os_path_join (subject_brain_directory self) n)
                              (os_path_join (subject_bias_fields_directory self) n)
      | Inr Delete \<Rightarrow> os_remove (os_path_join (subject_brain_directory self) n)
      | Inr Leave \<Rightarrow> skip)"
  by (simp add: reorganise_file_def planned_action_def Let_def split: sum.splits)

lemma reorganise_file_step:
  assumes "planned_action self n = Inr a"
    and "a \<noteq> Leave \<longrightarrow> fs w (os_path_join (subject_brain_directory self) n) \<noteq> None"
  shows "reorganise_file self n w = (Inr (), w\<lparr>fs := step_fs self n (fs w)\<rparr>)"
  using assms
  by (cases a)
     (auto simp: reorganise_file_plan step_fs_def Let_def shutil_move_def os_remove_def skip_def)


text \<open>Steps that each rewrite their own, pairwise disjoint, set of keys.\<close>

lemma fold_local:
  fixes step :: "'a \<Rightarrow> ('k \<Rightarrow> 'v) \<Rightarrow> 'k \<Rightarrow> 'v"
  assumes loc: "\<And>x f p. p \<notin> T x \<Longrightarrow> step x f p = f p"
    and det: "\<And>x f g p. (\<forall>q \<in> T x. f q = g q) \<Longrightarrow> p \<in> T x \<Longrightarrow> step x f p = step x g p"
    and dis: "\<And>x y. x \<in> set xs \<Longrightarrow> y \<in> set xs \<Longrightarrow> x \<noteq> y \<Longrightarrow> T x \<inter> T y = {}"
    and "distinct xs"
  shows "(\<forall>p. p \<notin> \<Union> (T ` set xs) \<longrightarrow> fold step xs f p = f p)
         \<and> (\<forall>x \<in> set xs. \<forall>p \<in> T x. fold step xs f p = step x f p)"
  using dis \<open>distinct xs\<close>
proof (induction xs arbitrary: f)
  case Nil
  show ?case by simp
next
  case (Cons x xs)
  have dis': "T a \<inter> T b = {}" if "a \<in> set xs" "b \<in> set xs" "a \<noteq> b" for a b
    using Cons.prems(1) [of a b] that by simp
  from Cons.prems(2) have dist: "distinct xs" and notin: "x \<notin> set xs" by simp_all
  note IH = Cons.IH [OF dis' dist, of "step x f"]
  have out: "fold step (x # xs) f p = f p" if "p \<notin> \<Union> (T ` set (x # xs))" for p
    using that IH loc [of p x f] by simp
  have at_x: "fold step (x # xs) f p = step x f p" if "p \<in> T x" for p
  proof -
    have "p \<notin> \<Union> (T ` set xs)"
    proof
      assume "p \<in> \<Union> (T ` set xs)"
      then obtain y where "y \<in> set xs" "p \<in> T y" by blast
      with notin Cons.prems(1) [of x y] that show False by auto
    qed
    with IH show ?thesis by simp
  qed
  have at_y: "fold step (x # xs) f p = step y f p" if "y \<in> set xs" "p \<in> T y" for y p
  proof -
    from that notin have ne: "x \<noteq> y" by blast
    have "T x \<inter> T y = {}"
      using Cons.prems(1) [of x y] that(1) ne by simp
    then have "\<forall>q \<in> T y. step x f q = f q"
      using loc [of _ x f] by blast
    then have "step y (step x f) p = step y f p"
      using det [of y "step x f" f p] that(2) by blast
    with IH that show ?thesis by simp
  qed
  from out at_x at_y show ?case by auto
qed


lemma step_fs_local: "p \<notin> touched3 self n \<Longrightarrow> step_fs self n f p = f p"
  by (auto simp: step_fs_def touched3_def Let_def split: sum.splits file_action.splits)

lemma step_fs_determined:
  assumes "\<forall>q \<in> touched3 self n. f q = g q" and "p \<in> touched3 self n"
  shows "step_fs self n f p = step_fs self n g p"
  using assms
  by (auto simp: step_fs_def touched3_def Let_def split: sum.splits file_action.splits)

lemma touched3_disjoint:
  assumes "self = Process3DFLAIR sid num tps method"
    and "CHR ''/'' \<notin> set n" and "CHR ''/'' \<notin> set m" and "n \<noteq> m"
  shows "touched3 self n \<inter> touched3 self m = {}"
proof -
  have "''fields/'' @ a \<noteq> b" if "CHR ''/'' \<notin> set b" for a b :: string
    using that by auto
  from this [of m _] this [of n _] assms show ?thesis
    by (auto simp: touched3_def join_brain join_bias join_fields)
qed


lemma reorganise_loop:
  assumes self: "self = Process3DFLAIR sid num tps method"
    and "distinct names"
    and "\<forall>n \<in> set names. CHR ''/'' \<notin> set n"
    and "\<forall>n \<in> set names. \<exists>a. planned_action self n = Inr a"
    and "\<forall>n \<in> set names. planned_action self n \<noteq> Inr Leave \<longrightarrow>
           fs w (os_path_join (subject_brain_directory self) n) \<noteq> None"
  shows "for_each names (reorganise_file self) w
           = (Inr (), w\<lparr>fs := fold (step_fs self) names (fs w)\<rparr>)"
  using assms(2-)
proof (induction names arbitrary: w)
  case Nil
  show ?case by simp
next
  case (Cons n ns)
  from Cons.prems(3) obtain a where a: "planned_action self n = Inr a" by auto
  have "a \<noteq> Leave \<longrightarrow> fs w (os_path_join (subject_brain_directory self) n) \<noteq> None"
    using Cons.prems(4) a by auto
  from reorganise_file_step [OF a this]
  have step: "reorganise_file self n w = (Inr (), w\<lparr>fs := step_fs self n (fs w)\<rparr>)" .
  let ?w1 = "w\<lparr>fs := step_fs self n (fs w)\<rparr>"
  have keep: "fs ?w1 (os_path_join (subject_brain_directory self) m)
                = fs w (os_path_join (subject_brain_directory self) m)" if "m \<in> set ns" for m
  proof -
    from that Cons.prems(1) have "n \<noteq> m" by auto
    with that Cons.prems(2) have "touched3 self n \<inter> touched3 self m = {}"
      by (intro touched3_disjoint [OF self]) auto
    moreover have "os_path_join (subject_brain_directory self) m \<in> touched3 self m"
      by (simp add: touched3_def)
    ultimately have "os_path_join (subject_brain_directory self) m \<notin> touched3 self n"
      by blast
    then show ?thesis by (simp add: step_fs_local)
  qed
  have "for_each ns (reorganise_file self) ?w1
          = (Inr (), ?w1\<lparr>fs := fold (step_fs self) ns (fs ?w1)\<rparr>)"
    using Cons.prems keep by (intro Cons.IH) auto
  with step show ?case by simp
qed

lemma reorganise_fold:
  assumes self: "self = Process3DFLAIR sid num tps method"
    and "distinct names"
    and "\<forall>n \<in> set names. CHR ''/'' \<notin> set n"
  shows "(\<forall>p. p \<notin> \<Union> (touched3 self ` set names) \<longrightarrow> fold (step_fs self) names f p = f p)
         \<and> (\<forall>n \<in> set names. \<forall>p \<in> touched3 self n.
               fold (step_fs self) names f p = step_fs self n f p)"
proof (rule fold_local)
  show "step_fs self x f p = f p" if "p \<notin> touched3 self x" for x f p
    using that by (rule step_fs_local)
  show "step_fs self x f p = step_fs self x g p"
    if "\<forall>q \<in> touched3 self x. f q = g q" "p \<in> touched3 self x" for x f g p
    using that by (rule step_fs_determined)
  show "touched3 self x \<inter> touched3 self y = {}"
    if "x \<in> set names" "y \<in> set names" "x \<noteq> y" for x y
    using that assms(3) by (intro touched3_disjoint [OF self]) auto
  show "distinct names" by fact
qed


lemma joins:
  assumes "self = Process3DFLAIR sid num tps method" and "CHR ''/'' \<notin> set n"
  shows "os_path_join (subject_brain_directory self) n = subject_brain_directory self @ n"
    and "os_path_join (subject_bias_directory self) n = subject_bias_directory self @ n"
    and "os_path_join (subject_bias_fields_directory self) n = subject_bias_fields_directory self @ n"
  using assms by (simp_all add: join_brain join_bias join_fields) (simp_all add: Process3DFLAIR_def)

lemma dirs_apart:
  assumes "self = Process3DFLAIR sid num tps method"
  shows "subject_brain_directory self @ n \<noteq> subject_bias_directory self @ m"
    and "subject_brain_directory self @ n \<noteq> subject_bias_fields_directory self @ m"
    and "CHR ''/'' \<notin> set n \<Longrightarrow>
           subject_bias_directory self @ n \<noteq> subject_bias_fields_directory self @ m"
  using assms by (auto simp: Process3DFLAIR_def)

lemma touched3_paths:
  assumes "self = Process3DFLAIR sid num tps method" and "CHR ''/'' \<notin> set n"
  shows "touched3 self n = {subject_brain_directory self @ n, subject_bias_directory self @ n,
                            subject_bias_fields_directory self @ n}"
  by (simp add: touched3_def joins [OF assms])

lemma step_fs_values:
  assumes self: "self = Process3DFLAIR sid num tps method" and n: "CHR ''/'' \<notin> set n"
  shows "planned_action self n = Inr MoveToBias \<Longrightarrow>
           step_fs self n f (subject_brain_directory self @ n) = None
           \<and> step_fs self n f (subject_bias_directory self @ n) = f (subject_brain_directory self @ n)
           \<and> step_fs self n f (subject_bias_fields_directory self @ n)
               = f (subject_bias_fields_directory self @ n)"
    and "planned_action self n = Inr MoveToFields \<Longrightarrow>
           step_fs self n f (subject_brain_directory self @ n) = None
           \<and> step_fs self n f (subject_bias_fields_directory self @ n)
               = f (subject_brain_directory self @ n)
           \<and> step_fs self n f (subject_bias_directory self @ n) = f (subject_bias_directory self @ n)"
    and "planned_action self n = Inr Delete \<Longrightarrow>
           step_fs self n f (subject_brain_directory self @ n) = None
           \<and> step_fs self n f (subject_bias_directory self @ n) = f (subject_bias_directory self @ n)
           \<and> step_fs self n f (subject_bias_fields_directory self @ n)
               = f (subject_bias_fields_directory self @ n)"
    and "planned_action self n = Inr Leave \<Longrightarrow> step_fs self n f = f"
  using dirs_apart [OF self, of n n] dirs_apart(3) [OF self n, of n]
  by (simp_all add: step_fs_def Let_def joins [OF self n])

lemma planned_action_cases:
  assumes "subject_id self = sid"
  shows "planned_action self n = Inr MoveToBias
           \<longleftrightarrow> startswith n sid \<and> suffix_of (base_name n) = Inr ''restore''"
    and "planned_action self n = Inr MoveToFields
           \<longleftrightarrow> startswith n sid \<and> suffix_of (base_name n) = Inr ''bias''"
    and "planned_action self n = Inr Delete
           \<longleftrightarrow> startswith n sid \<and>
               (suffix_of (base_name n) = Inr ''mixeltype'' \<or> suffix_of (base_name n) = Inr ''seg''
                \<or> (suffix_of (base_name n) \<noteq> Inl IndexError
                    \<and> suffix_of (base_name n) \<noteq> Inr ''restore''
                    \<and> suffix_of (base_name n) \<noteq> Inr ''bias''
                    \<and> contains (base_name n) ''pve''))"
    and "planned_action self n = Inl e \<longleftrightarrow> startswith n sid \<and> suffix_of (base_name n) = Inl e"
  using assms by (auto simp: planned_action_def suffix_of_def split: sum.splits option.splits)

lemma suffix_of_underscore: "CHR ''_'' \<in> set b \<Longrightarrow> \<exists>s. suffix_of b = Inr s"
  by (simp add: suffix_of_def rsplit1_def)


lemma reorganise_general:
  assumes self: "self = Process3DFLAIR sid num tps method"
    and listing: "os_listdir E (fs w) (subject_brain_directory self) = names"
    and dist: "distinct names"
    and slash: "\<forall>n \<in> set names. CHR ''/'' \<notin> set n"
    and own: "\<forall>n \<in> set names. startswith n sid \<longrightarrow>
                CHR ''_'' \<in> set (base_name n) \<and> fs w (subject_brain_directory self @ n) \<noteq> None"
  shows "fst (reorganise E self w) = Inr ()"
    and "\<forall>n \<in> set names.
           (startswith n sid \<and> suffix_of (base_name n) = Inr ''restore'' \<longrightarrow>
              fs (snd (reorganise E self w)) (subject_brain_directory self @ n) = None
              \<and> fs (snd (reorganise E self w)) (subject_bias_directory self @ n)
                  = fs w (subject_brain_directory self @ n))
         \<and> (startswith n sid \<and> suffix_of (base_name n) = Inr ''bias'' \<longrightarrow>
              fs (snd (reorganise E self w)) (subject_brain_directory self @ n) = None
              \<and> fs (snd (reorganise E self w)) (subject_bias_fields_directory self @ n)
                  = fs w (subject_brain_directory self @ n))
         \<and> (startswith n sid
              \<and> (suffix_of (base_name n) = Inr ''mixeltype'' \<or> suffix_of (base_name n) = Inr ''seg''
                  \<or> (suffix_of (base_name n) \<noteq> Inr ''restore''
                      \<and> suffix_of (base_name n) \<noteq> Inr ''bias''
                      \<and> contains (base_name n) ''pve'')) \<longrightarrow>
              fs (snd (reorganise E self w)) (subject_brain_directory self @ n) = None)
         \<and> (\<not> startswith n sid
              \<or> (suffix_of (base_name n) \<notin> {Inr ''restore'', Inr ''bias'', Inr ''mixeltype'', Inr ''seg''}
                  \<and> \<not> contains (base_name n) ''pve'') \<longrightarrow>
              fs (snd (reorganise E self w)) (subject_brain_directory self @ n)
                = fs w (subject_brain_directory self @ n))"
    and "\<forall>p. p \<notin> (\<lambda>n. subject_brain_directory self @ n) ` set names
            \<and> p \<notin> (\<lambda>n. subject_bias_directory self @ n)
                    ` {n \<in> set names. startswith n sid \<and> suffix_of (base_name n) = Inr ''restore''}
            \<and> p \<notin> (\<lambda>n. subject_bias_fields_directory self @ n)
                    ` {n \<in> set names. startswith n sid \<and> suffix_of (base_name n) = Inr ''bias''}
            \<longrightarrow> fs (snd (reorganise E self w)) p = fs w p"
proof -
  have sid: "subject_id self = sid" by (simp add: self Process3DFLAIR_def)
  note pc = planned_action_cases [OF sid]
  have no_err: "suffix_of (base_name n) \<noteq> Inl IndexError" if "n \<in> set names" "startswith n sid" for n
    using that own suffix_of_underscore [of "base_name n"] by auto
  have planned: "\<exists>a. planned_action self n = Inr a" if "n \<in> set names" for n
  proof (cases "planned_action self n")
    case (Inl e)
    then have "startswith n sid" and "suffix_of (base_name n) = Inl e" by (simp_all add: pc)
    moreover from this that own obtain s where "suffix_of (base_name n) = Inr s"
      using suffix_of_underscore [of "base_name n"] by auto
    ultimately show ?thesis by simp
  next
    case (Inr a)
    then show ?thesis by blast
  qed
  have starts: "startswith n sid" if "planned_action self n \<noteq> Inr Leave" "n \<in> set names" for n
    using that by (auto simp: planned_action_def sid split: if_splits)
  have exists: "\<forall>n \<in> set names. planned_action self n \<noteq> Inr Leave \<longrightarrow>
                  fs w (os_path_join (subject_brain_directory self) n) \<noteq> None"
    using own starts slash by (auto simp: joins [OF self])
  define F where "F = fold (step_fs self) names (fs w)"
  have run: "reorganise E self w = (Inr (), w\<lparr>fs := F\<rparr>)"
    unfolding F_def reorganise_def listing
    using planned by (intro reorganise_loop [OF self dist slash _ exists]) blast
  show "fst (reorganise E self w) = Inr ()" by (simp add: run)
  have fs': "fs (snd (reorganise E self w)) = F" by (simp add: run)
  note fold = reorganise_fold [OF self dist slash, of "fs w", folded F_def]
  have at: "F p = step_fs self n (fs w) p"
    if "n \<in> set names"
      "p \<in> {subject_brain_directory self @ n, subject_bias_directory self @ n,
             subject_bias_fields_directory self @ n}" for n p
  proof -
    from that slash have "p \<in> touched3 self n" by (simp add: touched3_paths [OF self])
    with fold that(1) show ?thesis by blast
  qed
  show "\<forall>n \<in> set names.
           (startswith n sid \<and> suffix_of (base_name n) = Inr ''restore'' \<longrightarrow>
              fs (snd (reorganise E self w)) (subject_brain_directory self @ n) = None
              \<and> fs (snd (reorganise E self w)) (subject_bias_directory self @ n)
                  = fs w (subject_brain_directory self @ n))
         \<and> (startswith n sid \<and> suffix_of (base_name n) = Inr ''bias'' \<longrightarrow>
              fs (snd (reorganise E self w)) (subject_brain_directory self @ n) = None
              \<and> fs (snd (reorganise E self w)) (subject_bias_fields_directory self @ n)
                  = fs w (subject_brain_directory self @ n))
         \<and> (startswith n sid
              \<and> (suffix_of (base_name n) = Inr ''mixeltype'' \<or> suffix_of (base_name n) = Inr ''seg''
                  \<or> (suffix_of (base_name n) \<noteq> Inr ''restore''
                      \<and> suffix_of (base_name n) \<noteq> Inr ''bias''
                      \<and> contains (base_name n) ''pve'')) \<longrightarrow>
              fs (snd (reorganise E self w)) (subject_brain_directory self @ n) = None)
         \<and> (\<not> startswith n sid
              \<or> (suffix_of (base_name n) \<notin> {Inr ''restore'', Inr ''bias'', Inr ''mixeltype'', Inr ''seg''}
                  \<and> \<not> contains (base_name n) ''pve'') \<longrightarrow>
              fs (snd (reorganise E self w)) (subject_brain_directory self @ n)
                = fs w (subject_brain_directory self @ n))"
  proof (intro ballI conjI impI)
    fix n assume n: "n \<in> set names"
    then have sl: "CHR ''/'' \<notin> set n" using slash by blast
    note sv = step_fs_values [OF self sl, of "fs w"]
    {
      assume "startswith n sid \<and> suffix_of (base_name n) = Inr ''restore''"
      then have "planned_action self n = Inr MoveToBias" by (simp add: pc)
      with sv(1) at [OF n]
      show "fs (snd (reorganise E self w)) (subject_brain_directory self @ n) = None"
        and "fs (snd (reorganise E self w)) (subject_bias_directory self @ n)
                  = fs w (subject_brain_directory self @ n)"
        by (simp_all add: fs')
    next
      assume "startswith n sid \<and> suffix_of (base_name n) = Inr ''bias''"
      then have "planned_action self n = Inr MoveToFields" by (simp add: pc)
      with sv(2) at [OF n]
      show "fs (snd (reorganise E self w)) (subject_brain_directory self @ n) = None"
        and "fs (snd (reorganise E self w)) (subject_bias_fields_directory self @ n)
                  = fs w (subject_brain_directory self @ n)"
        by (simp_all add: fs')
    next
      assume a: "startswith n sid
              \<and> (suffix_of (base_name n) = Inr ''mixeltype'' \<or> suffix_of (base_name n) = Inr ''seg''
                  \<or> (suffix_of (base_name n) \<noteq> Inr ''restore''
                      \<and> suffix_of (base_name n) \<noteq> Inr ''bias''
                      \<and> contains (base_name n) ''pve''))"
      with no_err [OF n] have "planned_action self n = Inr Delete" by (auto simp: pc)
      with sv(3) at [OF n]
      show "fs (snd (reorganise E self w)) (subject_brain_directory self @ n) = None"
        by (simp add: fs')
    next
      assume a: "\<not> startswith n sid
              \<or> (suffix_of (base_name n) \<notin> {Inr ''restore'', Inr ''bias'', Inr ''mixeltype'', Inr ''seg''}
                  \<and> \<not> contains (base_name n) ''pve'')"
      from planned [OF n] obtain act where act: "planned_action self n = Inr act" by blast
      have "act = Leave"
        using a act pc(1-3) [of n] by (cases act) auto
      with act sv(4) at [OF n]
      show "fs (snd (reorganise E self w)) (subject_brain_directory self @ n)
                = fs w (subject_brain_directory self @ n)"
        by (simp add: fs')
    }
  qed
  show "\<forall>p. p \<notin> (\<lambda>n. subject_brain_directory self @ n) ` set names
            \<and> p \<notin> (\<lambda>n. subject_bias_directory self @ n)
                    ` {n \<in> set names. startswith n sid \<and> suffix_of (base_name n) = Inr ''restore''}
            \<and> p \<notin> (\<lambda>n. subject_bias_fields_directory self @ n)
                    ` {n \<in> set names. startswith n sid \<and> suffix_of (base_name n) = Inr ''bias''}
            \<longrightarrow> fs (snd (reorganise E self w)) p = fs w p"
  proof (intro allI impI)
    fix p
    assume out: "p \<notin> (\<lambda>n. subject_brain_directory self @ n) ` set names
            \<and> p \<notin> (\<lambda>n. subject_bias_directory self @ n)
                    ` {n \<in> set names. startswith n sid \<and> suffix_of (base_name n) = Inr ''restore''}
            \<and> p \<notin> (\<lambda>n. subject_bias_fields_directory self @ n)
                    ` {n \<in> set names. startswith n sid \<and> suffix_of (base_name n) = Inr ''bias''}"
    show "fs (snd (reorganise E self w)) p = fs w p"
    proof (cases "p \<in> \<Union> (touched3 self ` set names)")
      case False
      with fold show ?thesis by (simp add: fs')
    next
      case True
      then obtain n where n: "n \<in> set names" and p: "p \<in> touched3 self n" by blast
      then have sl: "CHR ''/'' \<notin> set n" using slash by blast
      note sv = step_fs_values [OF self sl, of "fs w"]
      from p have p3: "p \<in> {subject_brain_directory self @ n, subject_bias_directory self @ n,
             subject_bias_fields_directory self @ n}"
        by (simp add: touched3_paths [OF self sl])
      from planned [OF n] obtain act where act: "planned_action self n = Inr act" by blast
      from out n have ne: "p \<noteq> subject_brain_directory self @ n" by blast
      have "step_fs self n (fs w) p = fs w p"
      proof (cases act)
        case MoveToBias
        with act have "startswith n sid \<and> suffix_of (base_name n) = Inr ''restore''"
          by (simp add: pc)
        with out n have "p \<noteq> subject_bias_directory self @ n" by blast
        with ne p3 have "p = subject_bias_fields_directory self @ n" by blast
        with sv(1) act MoveToBias show ?thesis by simp
      next
        case MoveToFields
        with act have "startswith n sid \<and> suffix_of (base_name n) = Inr ''bias''"
          by (simp add: pc)
        with out n have "p \<noteq> subject_bias_fields_directory self @ n" by blast
        with ne p3 have "p = subject_bias_directory self @ n" by blast
        with sv(2) act MoveToFields show ?thesis by simp
      next
        case Delete
        with sv(3) act ne p3 show ?thesis by auto
      next
        case Leave
        with sv(4) act show ?thesis by simp
      qed
      with at [OF n p3] show ?thesis by (simp add: fs')
    qed
  qed
qed

lemma fast_example:
  "fst (reorganise fast_env demo fast_world) = Inr ()
   \<and> dom (fs (snd (reorganise fast_env demo fast_world)))
       = {subject_brain_directory demo @ ''S_1_01_D1.nii.gz'',
          subject_bias_directory demo @ ''S_1_01_D1_restore.nii.gz'',
          subject_bias_fields_directory demo @ ''S_1_01_D1_bias.nii.gz''}"
  by (simp add: reorganise_def fast_env_def fast_names_def reorganise_file_def Let_def
      fast_world_def demo_def Process3DFLAIR_def startswith_def base_name_def suffix_of_def
      rsplit1_def os_path_join_def shutil_move_def os_remove_def skip_def scan_def
      insert_commute)


text \<open>
  C8. The reorganisation step of \<^verbatim>\<open>correctBiasField\<close>, for a listing of the brain
  directory whose entries beginning with the subject identifier exist and have an
  underscore in their base name: it returns; every listed file that begins with the
  subject identifier and has suffix \<^verbatim>\<open>restore\<close> is moved to the bias-corrected
  directory, every such file with suffix \<^verbatim>\<open>bias\<close> is moved to the fields
  subdirectory, every such file with suffix \<^verbatim>\<open>mixeltype\<close> or \<^verbatim>\<open>seg\<close>, or
  whose base name contains \<^verbatim>\<open>pve\<close> (and whose suffix is neither \<^verbatim>\<open>restore\<close>
  nor \<^verbatim>\<open>bias\<close>), is deleted; every other listed file stays, and no path other
  than these sources and the move targets changes. In the example with one file of each
  kind beside the brain volume, exactly the brain volume, the \<^verbatim>\<open>restore\<close> file in
  the bias-corrected directory and the \<^verbatim>\<open>bias\<close> file in the fields subdirectory
  are left.
\<close>

theorem reorganise_partitions_by_suffix:
  assumes self: "self = Process3DFLAIR sid num tps method"
    and listing: "os_listdir E (fs w) (subject_brain_directory self) = names"
    and dist: "distinct names"
    and slash: "\<forall>n \<in> set names. CHR ''/'' \<notin> set n"
    and own: "\<forall>n \<in> set names. startswith n sid \<longrightarrow>
                CHR ''_'' \<in> set (base_name n) \<and> fs w (subject_brain_directory self @ n) \<noteq> None"
  shows "fst (reorganise E self w) = Inr ()
         \<and> (\<forall>n \<in> set names.
           (startswith n sid \<and> suffix_of (base_name n) = Inr ''restore'' \<longrightarrow>
              fs (snd (reorganise E self w)) (subject_brain_directory self @ n) = None
              \<and> fs (snd (reorganise E self w)) (subject_bias_directory self @ n)
                  = fs w (subject_brain_directory self @ n))
         \<and> (startswith n sid \<and> suffix_of (base_name n) = Inr ''bias'' \<longrightarrow>
              fs (snd (reorganise E self w)) (subject_brain_directory self @ n) = None
              \<and> fs (snd (reorganise E self w)) (subject_bias_fields_directory self @ n)
                  = fs w (subject_brain_directory self @ n))
         \<and> (startswith n sid
              \<and> (suffix_of (base_name n) = Inr ''mixeltype'' \<or> suffix_of (base_name n) = Inr ''seg''
                  \<or> (suffix_of (base_name n) \<noteq> Inr ''restore''
                      \<and> suffix_of (base_name n) \<noteq> Inr ''bias''
                      \<and> contains (base_name n) ''pve'')) \<longrightarrow>
              fs (snd (reorganise E self w)) (subject_brain_directory self @ n) = None)
         \<and> (\<not> startswith n sid
              \<or> (suffix_of (base_name n) \<notin> {Inr ''restore'', Inr ''bias'', Inr ''mixeltype'', Inr ''seg''}
                  \<and> \<not> contains (base_name n) ''pve'') \<longrightarrow>
              fs (snd (reorganise E self w)) (subject_brain_directory self @ n)
                = fs w (subject_brain_directory self @ n)))
         \<and> (\<forall>p. p \<notin> (\<lambda>n. subject_brain_directory self @ n) ` set names
            \<and> p \<notin> (\<lambda>n. subject_bias_directory self @ n)
                    ` {n \<in> set names. startswith n sid \<and> suffix_of (base_name n) = Inr ''restore''}
            \<and> p \<notin> (\<lambda>n. subject_bias_fields_directory self @ n)
                    ` {n \<in> set names. startswith n sid \<and> suffix_of (base_name n) = Inr ''bias''}
            \<longrightarrow> fs (snd (reorganise E self w)) p = fs w p)
         \<and> (fst (reorganise fast_env demo fast_world) = Inr ()
           \<and> dom (fs (snd (reorganise fast_env demo fast_world)))
               = {subject_brain_directory demo @ ''S_1_01_D1.nii.gz'',
                  subject_bias_directory demo @ ''S_1_01_D1_restore.nii.gz'',
                  subject_bias_fields_directory demo @ ''S_1_01_D1_bias.nii.gz''})"
  using reorganise_general [OF assms] fast_example by blast

theorem reorganise_partitions_by_suffix_witness:
  "demo = Process3DFLAIR ''S_1'' 2 [1, 2] ''affinefsl''
   \<and> os_listdir fast_env (fs fast_world) (subject_brain_directory demo) = fast_names
   \<and> distinct fast_names
   \<and> list_all (\<lambda>n. CHR ''/'' \<notin> set n) fast_names
   \<and> list_all (\<lambda>n. CHR ''_'' \<in> set (base_name n)
                    \<and> fs fast_world (subject_brain_directory demo @ n) \<noteq> None)
        (filter (\<lambda>n. startswith n ''S_1'') fast_names)
   \<and> ''S_1_01_D1_restore.nii.gz'' \<in> set fast_names
   \<and> startswith ''S_1_01_D1_restore.nii.gz'' ''S_1''
   \<and> suffix_of (base_name ''S_1_01_D1_restore.nii.gz'') = Inr ''restore''
   \<and> fst (reorganise fast_env demo fast_world) = Inr ()
   \<and> fs (snd (reorganise fast_env demo fast_world))
         (subject_brain_directory demo @ ''S_1_01_D1_restore.nii.gz'') = None
   \<and> fs (snd (reorganise fast_env demo fast_world))
         (subject_bias_directory demo @ ''S_1_01_D1_restore.nii.gz'')
       = fs fast_world (subject_brain_directory demo @ ''S_1_01_D1_restore.nii.gz'')"
proof -
  have h1: "demo = Process3DFLAIR ''S_1'' 2 [1, 2] ''affinefsl''"
    by (simp add: demo_def)
  have h2: "os_listdir fast_env (fs fast_world) (subject_brain_directory demo) = fast_names"
    by (simp add: fast_env_def)
  have h3: "distinct fast_names"
    by (simp add: fast_names_def)
  have h4: "\<forall>n \<in> set fast_names. CHR ''/'' \<notin> set n"
    by (simp add: fast_names_def)
  have h5: "\<forall>n \<in> set fast_names. startswith n ''S_1'' \<longrightarrow>
         CHR ''_'' \<in> set (base_name n) \<and> fs fast_world (subject_brain_directory demo @ n) \<noteq> None"
    by (simp add: fast_names_def fast_world_def startswith_def base_name_def rsplit1_def
        demo_def Process3DFLAIR_def)
  have r: "''S_1_01_D1_restore.nii.gz'' \<in> set fast_names"
    "startswith ''S_1_01_D1_restore.nii.gz'' ''S_1''"
    "suffix_of (base_name ''S_1_01_D1_restore.nii.gz'') = Inr ''restore''"
    by code_simp+
  note main = reorganise_partitions_by_suffix [OF h1 h2 h3 h4 h5]
  from main have ok: "fst (reorganise fast_env demo fast_world) = Inr ()"
    by blast
  from main r have "fs (snd (reorganise fast_env demo fast_world))
         (subject_brain_directory demo @ ''S_1_01_D1_restore.nii.gz'') = None
     \<and> fs (snd (reorganise fast_env demo fast_world))
         (subject_bias_directory demo @ ''S_1_01_D1_restore.nii.gz'')
       = fs fast_world (subject_brain_directory demo @ ''S_1_01_D1_restore.nii.gz'')"
    by blast
  moreover from h4 have "list_all (\<lambda>n. CHR ''/'' \<notin> set n) fast_names"
    unfolding list_all_iff by blast
  moreover from h5 have "list_all (\<lambda>n. CHR ''_'' \<in> set (base_name n)
                    \<and> fs fast_world (subject_brain_directory demo @ n) \<noteq> None)
        (filter (\<lambda>n. startswith n ''S_1'') fast_names)"
    unfolding list_all_iff set_filter by blast
  ultimately show ?thesis using h1 h2 h3 r ok by blast
qed

subsection \<open>Tool runs of a returning run\<close>

lemma direct_runs_append: "direct_runs (xs @ ys) = direct_runs xs @ direct_runs ys"
  by (simp add: direct_runs_def tool_runs_append)

lemma seq_returns_split:
  assumes "fst (seq f g w) = Inr ()"
  shows "fst (f w) = Inr ()" and "seq f g w = g (snd (f w))"
  using assms by (auto simp: seq_def split: prod.splits sum.splits)

lemma seq_acc:
  assumes "fst (seq f g w) = Inr ()"
    and "\<And>w. P (trace (snd (f w))) = P (trace w) @ xs"
    and "\<And>w. fst (g w) = Inr () \<Longrightarrow> P (trace (snd (g w))) = P (trace w) @ ys"
  shows "P (trace (snd (seq f g w))) = P (trace w) @ xs @ ys"
proof -
  note s = seq_returns_split [OF assms(1)]
  have "fst (g (snd (f w))) = Inr ()" using assms(1) s(2) by simp
  from assms(3) [OF this] assms(2) [of w] show ?thesis by (simp add: s(2))
qed

lemma for_each_acc:
  assumes "\<And>x w. fst (f x w) = Inr () \<Longrightarrow> P (trace (snd (f x w))) = P (trace w) @ h x"
    and "fst (for_each xs f w) = Inr ()"
  shows "P (trace (snd (for_each xs f w))) = P (trace w) @ concat (map h xs)"
  using assms(2)
proof (induction xs arbitrary: w)
  case Nil
  show ?case by simp
next
  case (Cons x xs)
  obtain r w1 where f: "f x w = (r, w1)" by (cases "f x w")
  with Cons.prems have r: "r = Inr ()" and rest: "fst (for_each xs f w1) = Inr ()"
    by (cases r; simp)+
  have "P (trace w1) = P (trace w) @ h x"
    using assms(1) [of x w] f r by simp
  with Cons.IH [OF rest] f r show ?case by simp
qed

lemma direct_runs_invoke:
  "direct_runs (trace (snd (invoke E t w)))
     = direct_runs (trace w) @ (if is_registration t then [] else [t])"
  by (simp add: invoke_trace direct_runs_append) (simp add: direct_runs_def)

lemma direct_runs_nonlinear:
  "direct_runs (trace (snd (nonlinearFslFNIRT E r p w))) = direct_runs (trace w)"
  by (simp add: nonlinearFslFNIRT_def raise_def direct_runs_invoke split: option.splits)

lemma direct_runs_enter: "direct_runs (trace (snd (enter m w))) = direct_runs (trace w)"
  by (simp add: enter_def direct_runs_append) (simp add: direct_runs_def)

lemma direct_runs_applyBETMask:
  assumes "fst (applyBETMask E self e t w) = Inr ()"
  shows "direct_runs (trace (snd (applyBETMask E self e t w)))
           = direct_runs (trace w) @
             [ApplyMask (registered_whole_brain_file self (tp_zfill t))
                (brain_file_mask self (tp_zfill e)) (brain_file self (tp_zfill t))]"
proof -
  have "direct_runs (trace (snd (applyBETMask E self e t w)))
          = direct_runs (trace w) @ [] @ [] @ [] @ [] @
             [ApplyMask (registered_whole_brain_file self (tp_zfill t))
                (brain_file_mask self (tp_zfill e)) (brain_file self (tp_zfill t))]"
    using assms unfolding applyBETMask_def Let_def
    apply (rule seq_acc)
     apply (simp add: direct_runs_enter)
    apply (erule seq_acc)
     apply (simp add: skip_def rigidFslFLIRT_def direct_runs_invoke)
    apply (erule seq_acc)
     apply (simp add: skip_def affineFslFLIRT_def direct_runs_invoke)
    apply (erule seq_acc)
     apply (simp add: skip_def direct_runs_nonlinear)
    apply (simp add: direct_runs_invoke)
    done
  then show ?thesis by simp
qed


lemma concat_map_single: "concat (map (\<lambda>x. [g x]) xs) = map g xs"
  by (induction xs) simp_all

lemma direct_runs_extractBrain:
  assumes "fst (extractBrain E self w) = Inr ()"
  shows "direct_runs (trace (snd (extractBrain E self w)))
           = direct_runs (trace w) @
             map (\<lambda>i. ApplyMask
                    (registered_whole_brain_file self (tp_zfill (time_points_to_consider self ! i)))
                    (brain_file_mask self (tp_zfill (last (time_points_to_consider self))))
                    (brain_file self (tp_zfill (time_points_to_consider self ! i))))
               [0..<length (time_points_to_consider self) - 1]"
proof -
  let ?tps = "time_points_to_consider self"
  let ?w0 = "w\<lparr>trace := trace w @ [Enter ExtractBrain]\<rparr>"
  let ?loop = "for_each [0..<length ?tps - 1] (\<lambda>i. applyBETMask E self (last ?tps) (?tps ! i))"
  have ne: "?tps \<noteq> []"
    using assms by (auto simp: extractBrain_def seq_def enter_def raise_def split: list.splits)
  then have run: "extractBrain E self w = ?loop ?w0"
    by (simp add: extractBrain_def seq_def enter_def Let_def split: list.splits)
  with assms have ok: "fst (?loop ?w0) = Inr ()" by simp
  have "direct_runs (trace (snd (?loop ?w0)))
          = direct_runs (trace ?w0) @
            concat (map (\<lambda>i. [ApplyMask
                    (registered_whole_brain_file self (tp_zfill (?tps ! i)))
                    (brain_file_mask self (tp_zfill (last ?tps)))
                    (brain_file self (tp_zfill (?tps ! i)))]) [0..<length ?tps - 1])"
    by (rule for_each_acc [OF _ ok]) (rule direct_runs_applyBETMask)
  then show ?thesis
    by (simp add: run concat_map_single direct_runs_append) (simp add: direct_runs_def)
qed

lemma trace_reorganise_file: "trace (snd (reorganise_file self n w)) = trace w"
  by (simp add: reorganise_file_plan shutil_move_def os_remove_def skip_def raise_def
      split: sum.splits file_action.splits option.splits)

lemma direct_runs_reorganise:
  "direct_runs (trace (snd (reorganise E self w))) = direct_runs (trace w)"
  unfolding reorganise_def
  by (rule for_each_proj_same) (simp add: trace_reorganise_file)

lemma direct_runs_correctBiasField:
  assumes "fst (correctBiasField E self ''FSL'' w) = Inr ()"
  shows "direct_runs (trace (snd (correctBiasField E self ''FSL'' w)))
           = direct_runs (trace w) @
             map (\<lambda>i. FAST (brain_file self (current_img_str (time_points_to_consider self ! i)))
                    5 1 5 True True)
               [0..<length (time_points_to_consider self)]"
proof -
  let ?fast = "\<lambda>i. FAST (brain_file self (current_img_str (time_points_to_consider self ! i)))
                    5 1 5 True True"
  have loop: "direct_runs (trace (snd (for_each xs (\<lambda>i. invoke E (?fast i)) w)))
                = direct_runs (trace w) @ map ?fast xs"
    if "fst (for_each xs (\<lambda>i. invoke E (?fast i)) w) = Inr ()" for xs w
    using for_each_acc [of "\<lambda>i. invoke E (?fast i)" direct_runs "\<lambda>i. [?fast i]" xs w, OF _ that]
    by (simp add: direct_runs_invoke concat_map_single)
  have "direct_runs (trace (snd (correctBiasField E self ''FSL'' w)))
          = direct_runs (trace w) @ [] @ map ?fast [0..<length (time_points_to_consider self)] @ []"
    using assms unfolding correctBiasField_def
    apply (rule seq_acc)
     apply (simp add: direct_runs_enter)
    apply simp
    apply (subst seq_returns_split(2), assumption)
    apply (drule seq_returns_split(1))
    apply (simp add: direct_runs_reorganise loop)
    done
  then show ?thesis by simp
qed

lemma direct_runs_nib_save:
  "direct_runs (trace (snd (nib_save img p w))) = direct_runs (trace w)"
  by (simp add: nib_save_def direct_runs_append) (simp add: direct_runs_def)

lemma direct_runs_save_normalised:
  assumes "fst (save_normalised E self normalized w) = Inr ()"
  shows "direct_runs (trace (snd (save_normalised E self normalized w)))
           = direct_runs (trace w) @
             map (\<lambda>i. Reorient2Std
                    (normalised_file self (current_img_str (time_points_to_consider self ! i)))
                    (normalised_file self (current_img_str (time_points_to_consider self ! i))))
               [0..<length (time_points_to_consider self)]"
proof -
  let ?re = "\<lambda>i. Reorient2Std
                    (normalised_file self (current_img_str (time_points_to_consider self ! i)))
                    (normalised_file self (current_img_str (time_points_to_consider self ! i)))"
  have loop: "direct_runs (trace (snd (for_each xs (\<lambda>i. invoke E (?re i)) w)))
                = direct_runs (trace w) @ map ?re xs"
    if "fst (for_each xs (\<lambda>i. invoke E (?re i)) w) = Inr ()" for xs w
    using for_each_acc [of "\<lambda>i. invoke E (?re i)" direct_runs "\<lambda>i. [?re i]" xs w, OF _ that]
    by (simp add: direct_runs_invoke concat_map_single)
  have "direct_runs (trace (snd (save_normalised E self normalized w)))
          = direct_runs (trace w) @ [] @ map ?re [0..<length (time_points_to_consider self)]"
    using assms unfolding save_normalised_def
    apply (rule seq_acc)
     apply (simp add: for_each_proj_same [of direct_runs] direct_runs_nib_save)
    apply (simp add: loop)
    done
  then show ?thesis by simp
qed

lemma direct_runs_intensityNormalisation:
  assumes "fst (intensityNormalisation E self b w) = Inr ()"
  shows "direct_runs (trace (snd (intensityNormalisation E self b w)))
           = direct_runs (trace w) @
             map (\<lambda>i. Reorient2Std
                    (normalised_file self (current_img_str (time_points_to_consider self ! i)))
                    (normalised_file self (current_img_str (time_points_to_consider self ! i))))
               [0..<length (time_points_to_consider self)]"
proof -
  let ?w0 = "w\<lparr>trace := trace w @ [Enter (IntensityNormalisation b)]\<rparr>"
  let ?h = "subject_normalised_directory self @ ''standard_histogram.npy''"
  obtain images where Inr: "load_images (fs w) (intensityNormalisation_image_paths self b) = Inr images"
    using assms
    by (cases "load_images (fs w) (intensityNormalisation_image_paths self b)")
       (simp_all add: intensityNormalisation_def seq_def enter_def)
  obtain nyul_norm where fit: "nyul_fit E images = Inr nyul_norm"
    using assms Inr
    by (cases "nyul_fit E images") (simp_all add: intensityNormalisation_def seq_def enter_def)
  let ?w1 = "?w0\<lparr>fs := (fs ?w0)(?h \<mapsto> OtherFile)\<rparr>"
  have run: "intensityNormalisation E self b w = save_normalised E self (map nyul_norm images) ?w1"
    using Inr fit
    by (simp add: intensityNormalisation_def seq_def enter_def save_standard_histogram_def)
  with assms have "fst (save_normalised E self (map nyul_norm images) ?w1) = Inr ()" by simp
  from direct_runs_save_normalised [OF this] show ?thesis
    by (simp add: run direct_runs_append) (simp add: direct_runs_def)
qed

lemma direct_runs_calcVariance:
  "direct_runs (trace (snd (calcVariance self out w))) = direct_runs (trace w)"
  by (simp add: calcVariance_def seq_def enter_def nib_save_def direct_runs_append
      split: sum.splits list.splits)
     (simp add: direct_runs_def)

subsection \<open>Running again\<close>

lemma direct_runs_new_events:
  assumes "extends w w'"
  shows "direct_runs (trace w') = direct_runs (trace w) @ direct_runs (new_events w w')"
  using assms by (metis extends_def direct_runs_append)

text \<open>
  C1. \<^verbatim>\<open>runVariancePipeline\<close> has no skip-on-exists logic: no stage looks whether its
  target artifact is already there. Every run that returns, whatever the file system held
  at the start, has run \<^verbatim>\<open>ApplyMask\<close> once for each list position before the template,
  then \<^verbatim>\<open>FAST\<close> once for each configured time point, then \<^verbatim>\<open>Reorient2Std\<close> once for
  each configured time point (besides the runs made inside the registration module), so it
  has run at least one external tool.
\<close>

theorem runVariancePipeline_runs_tools_regardless:
  assumes "fst (runVariancePipeline E self out w) = Inr ()"
  shows "direct_runs (new_events w (snd (runVariancePipeline E self out w)))
           = map (\<lambda>i. ApplyMask
                    (registered_whole_brain_file self (tp_zfill (time_points_to_consider self ! i)))
                    (brain_file_mask self (tp_zfill (last (time_points_to_consider self))))
                    (brain_file self (tp_zfill (time_points_to_consider self ! i))))
               [0..<length (time_points_to_consider self) - 1]
             @ map (\<lambda>i. FAST (brain_file self (current_img_str (time_points_to_consider self ! i)))
                      5 1 5 True True)
                 [0..<length (time_points_to_consider self)]
             @ map (\<lambda>i. Reorient2Std
                      (normalised_file self (current_img_str (time_points_to_consider self ! i)))
                      (normalised_file self (current_img_str (time_points_to_consider self ! i))))
                 [0..<length (time_points_to_consider self)]
         \<and> tool_runs (new_events w (snd (runVariancePipeline E self out w))) \<noteq> []"
proof -
  let ?w' = "snd (runVariancePipeline E self out w)"
  let ?rest1 = "seq (correctBiasField E self ''FSL'')
                  (seq (intensityNormalisation E self True) (calcVariance self out))"
  let ?rest2 = "seq (intensityNormalisation E self True) (calcVariance self out)"
  let ?w1 = "snd (extractBrain E self w)"
  let ?w2 = "snd (correctBiasField E self ''FSL'' ?w1)"
  let ?w3 = "snd (intensityNormalisation E self True ?w2)"
  from assms have all: "fst (seq (extractBrain E self) ?rest1 w) = Inr ()"
    by (simp add: runVariancePipeline_def)
  note s1 = seq_returns_split [OF all]
  from all s1(2) have r1: "fst (?rest1 ?w1) = Inr ()" by simp
  note s2 = seq_returns_split [OF r1]
  from r1 s2(2) have r2: "fst (?rest2 ?w2) = Inr ()" by simp
  note s3 = seq_returns_split [OF r2]
  have run: "runVariancePipeline E self out w = calcVariance self out ?w3"
    using s1(2) s2(2) s3(2) by (simp add: runVariancePipeline_def)
  have ne: "time_points_to_consider self \<noteq> []"
    using s1(1) by (auto simp: extractBrain_def seq_def enter_def raise_def split: list.splits)
  have abs: "direct_runs (trace ?w') = direct_runs (trace w) @
           (map (\<lambda>i. ApplyMask
                    (registered_whole_brain_file self (tp_zfill (time_points_to_consider self ! i)))
                    (brain_file_mask self (tp_zfill (last (time_points_to_consider self))))
                    (brain_file self (tp_zfill (time_points_to_consider self ! i))))
               [0..<length (time_points_to_consider self) - 1]
             @ map (\<lambda>i. FAST (brain_file self (current_img_str (time_points_to_consider self ! i)))
                      5 1 5 True True)
                 [0..<length (time_points_to_consider self)]
             @ map (\<lambda>i. Reorient2Std
                      (normalised_file self (current_img_str (time_points_to_consider self ! i)))
                      (normalised_file self (current_img_str (time_points_to_consider self ! i))))
                 [0..<length (time_points_to_consider self)])"
    by (simp add: run direct_runs_calcVariance direct_runs_intensityNormalisation [OF s3(1)]
        direct_runs_correctBiasField [OF s2(1)] direct_runs_extractBrain [OF s1(1)])
  have "direct_runs (trace ?w') = direct_runs (trace w) @ direct_runs (new_events w ?w')"
    by (rule direct_runs_new_events) (rule extends_runVariancePipeline)
  with abs have eq: "direct_runs (new_events w ?w')
           = map (\<lambda>i. ApplyMask
                    (registered_whole_brain_file self (tp_zfill (time_points_to_consider self ! i)))
                    (brain_file_mask self (tp_zfill (last (time_points_to_consider self))))
                    (brain_file self (tp_zfill (time_points_to_consider self ! i))))
               [0..<length (time_points_to_consider self) - 1]
             @ map (\<lambda>i. FAST (brain_file self (current_img_str (time_points_to_consider self ! i)))
                      5 1 5 True True)
                 [0..<length (time_points_to_consider self)]
             @ map (\<lambda>i. Reorient2Std
                      (normalised_file self (current_img_str (time_points_to_consider self ! i)))
                      (normalised_file self (current_img_str (time_points_to_consider self ! i))))
                 [0..<length (time_points_to_consider self)]"
    by simp
  with ne have "direct_runs (new_events w ?w') \<noteq> []" by simp
  then have "tool_runs (new_events w ?w') \<noteq> []"
    by (auto simp: direct_runs_def)
  with eq show ?thesis by blast
qed

theorem runVariancePipeline_runs_tools_regardless_witness:
  "fst (runVariancePipeline demo_env demo demo_out demo_world) = Inr ()
   \<and> length (direct_runs (new_events demo_world
        (snd (runVariancePipeline demo_env demo demo_out demo_world)))) = 5
   \<and> tool_runs (new_events demo_world
        (snd (runVariancePipeline demo_env demo demo_out demo_world))) \<noteq> []"
proof -
  have tps: "time_points_to_consider demo = [1, 2]"
    by (simp add: demo_def Process3DFLAIR_def)
  from runVariancePipeline_runs_tools_regardless [OF demo_run_returns]
  have "length (direct_runs (new_events demo_world
        (snd (runVariancePipeline demo_env demo demo_out demo_world)))) = 5"
    and "tool_runs (new_events demo_world
        (snd (runVariancePipeline demo_env demo demo_out demo_world))) \<noteq> []"
    by (simp_all add: tps)
  with demo_run_returns show ?thesis by blast
qed

theorem rerun_invokes_tools:
  "\<not> Option.is_none (fs demo_world (registered_whole_brain_file demo ''01''))
   \<and> \<not> Option.is_none (fs demo_world (affine_file_path demo ''01''))
   \<and> \<not> Option.is_none (fs demo_world (brain_file demo ''01''))
   \<and> \<not> Option.is_none (fs demo_world (brain_file demo ''02''))
   \<and> \<not> Option.is_none (fs demo_world (bias_restore_file demo ''01''))
   \<and> \<not> Option.is_none (fs demo_world (bias_restore_file demo ''02''))
   \<and> \<not> Option.is_none (fs demo_world (subject_bias_fields_directory demo @ ''S_1_01_D1_bias.nii.gz''))
   \<and> \<not> Option.is_none (fs demo_world (subject_bias_fields_directory demo @ ''S_1_02_D1_bias.nii.gz''))
   \<and> \<not> Option.is_none (fs demo_world (subject_normalised_directory demo @ ''standard_histogram.npy''))
   \<and> \<not> Option.is_none (fs demo_world (normalised_file demo ''01''))
   \<and> \<not> Option.is_none (fs demo_world (normalised_file demo ''02''))
   \<and> \<not> Option.is_none (fs demo_world demo_out)
   \<and> fst (runVariancePipeline demo_env demo demo_out demo_world) = Inr ()
   \<and> tool_runs (new_events demo_world (snd (runVariancePipeline demo_env demo demo_out demo_world)))
       = [AffineFLIRT (brain_file demo ''02'') (nifti_file demo ''01'')
            (registered_whole_brain_file demo ''01'') ''mutualinfo'' ''trilinear'',
          ApplyMask (registered_whole_brain_file demo ''01'') (brain_file_mask demo ''02'')
            (brain_file demo ''01''),
          FAST (brain_file demo ''01'') 5 1 5 True True,
          FAST (brain_file demo ''02'') 5 1 5 True True,
          Reorient2Std (normalised_file demo ''01'') (normalised_file demo ''01''),
          Reorient2Std (normalised_file demo ''02'') (normalised_file demo ''02'')]"
  by code_simp

end
